theory Spec2Isabelle
  imports Complex_Main "HOL-Library.Multiset" "HOL-Library.Char_ord" "HOL-Library.List_Lexorder"
begin

section \<open>Data model (types/models.ts and the Prisma schema)\<close>

text \<open>
  Identifiers are the cuid strings of the schema. A \<open>Date\<close> is its \<open>getTime()\<close> value,
  the number of milliseconds since the epoch.
\<close>

type_synonym ident = string
type_synonym date = int

datatype EventType = SIMPLE_MESSAGE | PHOTO_WITH_NOTES | EMAIL | TEXT | DOCUMENT

text \<open>
  \<open>User\<close> is the interface of models.ts (the public profile); \<open>UserRow\<close> is the row of the
  \<open>users\<close> table, which carries the credential hash as well.
\<close>

record User =
  u_id :: ident
  username :: string
  email :: string
  displayName :: string
  u_createdAt :: date
  u_updatedAt :: date

record UserRow = User +
  password :: string

record Tag =
  t_id :: ident
  name :: string
  color :: "string option"
  t_createdAt :: date

record Attachment =
  a_id :: ident
  filename :: string
  originalName :: string
  mimeType :: string
  a_size :: nat
  path :: string
  a_eventId :: ident
  uploadedAt :: date

text \<open>The junction rows, and the same rows as a query with \<open>include\<close> returns them.\<close>

record EventUserAssignment =
  eua_eventId :: ident
  eua_userId :: ident

record EventTag =
  et_eventId :: ident
  et_tagId :: ident

record AssignmentWithUser = EventUserAssignment +
  au_user :: User

record EventTagWithTag = EventTag +
  et_tag :: Tag

text \<open>
  The \<open>changes\<close> object of recordEditHistory: keys in insertion order, each with its
  \<open>{from, to}\<close> pair. The table stores the \<open>JSON.stringify\<close> image of this object; the
  model keeps the object.
\<close>

datatype change_value = VString string | VType EventType | VDate date

record change =
  ch_from :: change_value
  ch_to :: change_value

record EventEditHistory =
  h_id :: ident
  h_eventId :: ident
  changes :: "(string \<times> change) list"
  editedAt :: date
  editedBy :: ident

text \<open>The row of the \<open>events\<close> table: \<open>metadata\<close> is a nullable JSON string.\<close>

record EventRow =
  e_id :: ident
  e_title :: string
  e_content :: string
  e_type :: EventType
  e_timestamp :: date
  e_metadata :: "string option"
  e_createdAt :: date
  e_updatedAt :: date
  e_creatorId :: ident

text \<open>
  What a Prisma query hands to formatEvent (typed \<open>any\<close> in the source): the row and the
  relations the query included. A relation that was not included is absent (\<open>None\<close>).
\<close>

record RawEvent = EventRow +
  r_creator :: "User option"
  r_assignedUsers :: "AssignmentWithUser list option"
  r_tags :: "EventTagWithTag list option"
  r_attachments :: "Attachment list option"

text \<open>
  The \<open>Event\<close> interface of models.ts; optional members are options. \<open>'j\<close> is the type of
  parsed JSON objects (\<open>Record<string, any>\<close>).
\<close>

record 'j Event =
  ev_id :: ident
  title :: string
  content :: string
  ev_type :: EventType
  timestamp :: date
  metadata :: "'j option"
  createdAt :: date
  updatedAt :: date
  creatorId :: ident
  creator :: "User option"
  assignedUsers :: "User list option"
  tags :: "Tag list option"
  attachments :: "Attachment list option"

record 'j CreateEventRequest =
  c_title :: string
  c_content :: string
  c_type :: EventType
  c_timestamp :: "date option"
  c_metadata :: "'j option"
  c_assignedUserIds :: "ident list option"
  c_tagIds :: "ident list option"

record 'j UpdateEventRequest =
  up_title :: "string option"
  up_content :: "string option"
  up_type :: "EventType option"
  up_timestamp :: "date option"
  up_metadata :: "'j option"
  up_assignedUserIds :: "ident list option"
  up_tagIds :: "ident list option"

text \<open>
  A JavaScript number that is the result of \<open>Math.ceil(total / limit)\<close>: an integer, or
  \<open>Infinity\<close> or \<open>NaN\<close> when the divisor is zero.
\<close>

datatype jsnum = Num int | Infinity | NaN

record Pagination =
  page :: int
  limit :: int
  p_total :: nat
  totalPages :: jsnum

record 'a PaginatedResponse =
  data :: "'a list"
  pagination :: Pagination

text \<open>
  The two library functions the repositories call on metadata, \<open>JSON.parse\<close> and
  \<open>JSON.stringify\<close>, are parameters of the model. The strings the repository stores are
  images of \<open>JSON.stringify\<close>, on which \<open>JSON.parse\<close> does not throw; it is a total
  function here.
\<close>

record 'j json_lib =
  JSON_parse :: "string \<Rightarrow> 'j"
  JSON_stringify :: "'j \<Rightarrow> string"

section \<open>The store\<close>

text \<open>
  The database behind the Prisma client: one list of rows per table of the schema, in
  storage order.
\<close>

record db =
  users :: "UserRow list"
  events :: "EventRow list"
  tag_rows :: "Tag list"
  event_user_assignments :: "EventUserAssignment list"
  event_tags :: "EventTag list"
  attachment_rows :: "Attachment list"
  event_edit_history :: "EventEditHistory list"

text \<open>The errors a Prisma call rejects with (P2025, P2002, P2003, and a refused argument).\<close>

datatype prisma_error =
  RecordNotFound | UniqueConstraintFailed | ForeignKeyConstraintFailed | InvalidArgument

definition user_ids :: "db \<Rightarrow> ident set" where
  "user_ids d = set (map u_id (users d))"

definition tag_ids :: "db \<Rightarrow> ident set" where
  "tag_ids d = set (map t_id (tag_rows d))"

definition event_ids :: "db \<Rightarrow> ident set" where
  "event_ids d = set (map e_id (events d))"

definition find_event :: "db \<Rightarrow> ident \<Rightarrow> EventRow option" where
  "find_event d i = find (\<lambda>e. e_id e = i) (events d)"

definition find_user :: "db \<Rightarrow> ident \<Rightarrow> UserRow option" where
  "find_user d i = find (\<lambda>u. u_id u = i) (users d)"

definition find_tag :: "db \<Rightarrow> ident \<Rightarrow> Tag option" where
  "find_tag d i = find (\<lambda>t. t_id t = i) (tag_rows d)"

text \<open>The \<open>select\<close> of the six public columns, used by every user query but one.\<close>

definition select_public :: "UserRow \<Rightarrow> User" where
  "select_public u = User.truncate u"

text \<open>
  The \<open>include\<close> clause shared by every event query: the creator, the assignment rows
  each with its user, the tag rows each with its tag, and the attachments. The clause
  gives no \<open>orderBy\<close>; the junction rows of an event come in the order of their primary
  key \<open>@@id([eventId, userId])\<close> or \<open>@@id([eventId, tagId])\<close>, that is by the second id,
  compared bytewise.
\<close>

definition include_assignedUsers :: "db \<Rightarrow> ident \<Rightarrow> AssignmentWithUser list" where
  "include_assignedUsers d i =
     List.map_filter
       (\<lambda>a. map_option (\<lambda>u. EventUserAssignment.extend a
                (AssignmentWithUser.fields (select_public u))) (find_user d (eua_userId a)))
       (sort_key eua_userId (filter (\<lambda>a. eua_eventId a = i) (event_user_assignments d)))"

definition include_tags :: "db \<Rightarrow> ident \<Rightarrow> EventTagWithTag list" where
  "include_tags d i =
     List.map_filter
       (\<lambda>a. map_option (\<lambda>t. EventTag.extend a (EventTagWithTag.fields t))
                (find_tag d (et_tagId a)))
       (sort_key et_tagId (filter (\<lambda>a. et_eventId a = i) (event_tags d)))"

definition include_relations :: "db \<Rightarrow> EventRow \<Rightarrow> RawEvent" where
  "include_relations d e =
     EventRow.extend e (RawEvent.fields
       (map_option select_public (find_user d (e_creatorId e)))
       (Some (include_assignedUsers d (e_id e)))
       (Some (include_tags d (e_id e)))
       (Some (filter (\<lambda>a. a_eventId a = e_id e) (attachment_rows d))))"

text \<open>
  \<open>orderBy: {timestamp: 'desc'}\<close>: the index on \<open>timestamp\<close> read backwards, so rows with
  equal timestamps come in the reverse of their storage order.
\<close>

definition order_by_timestamp_desc :: "EventRow list \<Rightarrow> EventRow list" where
  "order_by_timestamp_desc es = rev (sort_key e_timestamp es)"

text \<open>
  The numbers \<open>skip\<close> and \<open>take\<close> as the client passes them on: a value outside the
  64-bit range is refused, and of \<open>take\<close> the low 32 bits count.
\<close>

definition in_int64 :: "int \<Rightarrow> bool" where
  "in_int64 n \<longleftrightarrow> - (2 ^ 63) \<le> n \<and> n < 2 ^ 63"

definition low32 :: "int \<Rightarrow> nat" where
  "low32 n = nat (n mod 2 ^ 32)"

text \<open>
  \<open>take\<close> of findMany: a negative \<open>take\<close> counts from the end of the ordered list.
\<close>

definition prisma_take :: "int \<Rightarrow> 'a list \<Rightarrow> prisma_error + 'a list" where
  "prisma_take t xs =
     (if \<not> in_int64 t then Inl InvalidArgument
      else if 0 \<le> t then Inr (take (low32 t) xs)
      else Inr (rev (take (low32 (- t)) (rev xs))))"

text \<open>
  \<open>skip\<close> and \<open>take\<close> of findMany: a negative \<open>skip\<close> is refused; with a negative
  \<open>take\<close> the rows are skipped from the end as well.
\<close>

definition skip_take :: "int \<Rightarrow> int \<Rightarrow> 'a list \<Rightarrow> prisma_error + 'a list" where
  "skip_take s t xs =
     (if s < 0 \<or> \<not> in_int64 s then Inl InvalidArgument
      else if 0 \<le> t then prisma_take t (drop (nat s) xs)
      else prisma_take t (rev (drop (nat s) (rev xs))))"

section \<open>EventRepository\<close>

text \<open>
  formatEvent: \<open>event.metadata ? JSON.parse(event.metadata) : undefined\<close> (the empty
  string is falsy, as \<open>null\<close> is), and \<open>x?.map(...) || []\<close> for the relations.
\<close>

definition formatEvent :: "'j json_lib \<Rightarrow> RawEvent \<Rightarrow> 'j Event" where
  "formatEvent J event =
     \<lparr> ev_id = e_id event,
       title = e_title event,
       content = e_content event,
       ev_type = e_type event,
       timestamp = e_timestamp event,
       metadata = (case e_metadata event of
                     None \<Rightarrow> None
                   | Some s \<Rightarrow> if s = [] then None else Some (JSON_parse J s)),
       createdAt = e_createdAt event,
       updatedAt = e_updatedAt event,
       creatorId = e_creatorId event,
       creator = r_creator event,
       assignedUsers = Some (case r_assignedUsers event of
                               None \<Rightarrow> [] | Some aus \<Rightarrow> map au_user aus),
       tags = Some (case r_tags event of None \<Rightarrow> [] | Some ets \<Rightarrow> map et_tag ets),
       attachments = Some (case r_attachments event of None \<Rightarrow> [] | Some as \<Rightarrow> as) \<rparr>"

text \<open>\<open>Math.ceil(total / limit)\<close>; integer division of \<open>int\<close> rounds down.\<close>

definition ceil_div :: "nat \<Rightarrow> int \<Rightarrow> jsnum" where
  "ceil_div n l =
     (if l = 0 then (if n = 0 then NaN else Infinity)
      else Num (- ((- int n) div l)))"

text \<open>
  The body shared by findAll, findByCreator and findByDateRange, which differ in the
  \<open>where\<close> clause only: the page of the matching rows and their count.
\<close>

definition paginate ::
  "'j json_lib \<Rightarrow> db \<Rightarrow> (EventRow \<Rightarrow> bool) \<Rightarrow> int \<Rightarrow> int
     \<Rightarrow> prisma_error + 'j Event PaginatedResponse" where
  "paginate J d wh pg lm =
     (let skip = (pg - 1) * lm;
          total = length (filter wh (events d))
      in case skip_take skip lm (order_by_timestamp_desc (filter wh (events d))) of
           Inl err \<Rightarrow> Inl err
         | Inr evs \<Rightarrow>
             Inr \<lparr> data = map (\<lambda>e. formatEvent J (include_relations d e)) evs,
                   pagination = \<lparr> page = pg, limit = lm, p_total = total,
                                  totalPages = ceil_div total lm \<rparr> \<rparr>)"

definition EventRepository_findAll ::
  "'j json_lib \<Rightarrow> db \<Rightarrow> int \<Rightarrow> int \<Rightarrow> prisma_error + 'j Event PaginatedResponse" where
  "EventRepository_findAll J d pg lm = paginate J d (\<lambda>e. True) pg lm"

definition EventRepository_findByCreator ::
  "'j json_lib \<Rightarrow> db \<Rightarrow> ident \<Rightarrow> int \<Rightarrow> int \<Rightarrow> prisma_error + 'j Event PaginatedResponse" where
  "EventRepository_findByCreator J d cid pg lm = paginate J d (\<lambda>e. e_creatorId e = cid) pg lm"

definition EventRepository_findByDateRange ::
  "'j json_lib \<Rightarrow> db \<Rightarrow> date \<Rightarrow> date \<Rightarrow> int \<Rightarrow> int
     \<Rightarrow> prisma_error + 'j Event PaginatedResponse" where
  "EventRepository_findByDateRange J d startDate endDate pg lm =
     paginate J d (\<lambda>e. startDate \<le> e_timestamp e \<and> e_timestamp e \<le> endDate) pg lm"

definition EventRepository_findById :: "'j json_lib \<Rightarrow> db \<Rightarrow> ident \<Rightarrow> 'j Event option" where
  "EventRepository_findById J d i =
     (case find_event d i of
        None \<Rightarrow> None
      | Some event \<Rightarrow> Some (formatEvent J (include_relations d event)))"

subsection \<open>Writes\<close>

text \<open>
  A nested \<open>create\<close> of junction rows for one event: every referenced row must exist
  (foreign key) and no pair may repeat (the composite primary key \<open>@@id\<close>).
\<close>

definition nested_create_check :: "ident set \<Rightarrow> ident list \<Rightarrow> prisma_error option" where
  "nested_create_check existing ids =
     (if \<not> (\<forall>i \<in> set ids. i \<in> existing) then Some ForeignKeyConstraintFailed
      else if \<not> distinct ids then Some UniqueConstraintFailed
      else None)"

definition assignment_rows :: "ident \<Rightarrow> ident list \<Rightarrow> EventUserAssignment list" where
  "assignment_rows i userIds = map (\<lambda>userId. \<lparr> eua_eventId = i, eua_userId = userId \<rparr>) userIds"

definition event_tag_rows :: "ident \<Rightarrow> ident list \<Rightarrow> EventTag list" where
  "event_tag_rows i tagIds = map (\<lambda>tagId. \<lparr> et_eventId = i, et_tagId = tagId \<rparr>) tagIds"

text \<open>
  \<open>prisma.event.create\<close> with its nested creates, one transaction: the store is changed
  only when every insert is accepted.
\<close>

definition prisma_event_create ::
  "db \<Rightarrow> EventRow \<Rightarrow> ident list \<Rightarrow> ident list \<Rightarrow> prisma_error + db" where
  "prisma_event_create d row userIds tagIds =
     (if e_id row \<in> event_ids d then Inl UniqueConstraintFailed
      else if e_creatorId row \<notin> user_ids d then Inl ForeignKeyConstraintFailed
      else case nested_create_check (user_ids d) userIds of
             Some err \<Rightarrow> Inl err
           | None \<Rightarrow>
              (case nested_create_check (tag_ids d) tagIds of
                 Some err \<Rightarrow> Inl err
               | None \<Rightarrow>
                   Inr (d\<lparr> events := events d @ [row],
                           event_user_assignments :=
                             event_user_assignments d @ assignment_rows (e_id row) userIds,
                           event_tags := event_tags d @ event_tag_rows (e_id row) tagIds \<rparr>)))"

text \<open>
  create: \<open>today\<close> is what \<open>new Date()\<close> reads for a timestamp that was not given, \<open>now\<close>
  is the clock of the store for the \<open>@default(now())\<close> and \<open>@updatedAt\<close> columns, and
  \<open>nid\<close> is the cuid the store generates for the new row.
\<close>

definition EventRepository_create ::
  "'j json_lib \<Rightarrow> db \<Rightarrow> 'j CreateEventRequest \<Rightarrow> ident \<Rightarrow> date \<Rightarrow> date \<Rightarrow> ident
     \<Rightarrow> (prisma_error + 'j Event) \<times> db" where
  "EventRepository_create J d eventData creator_id today now nid =
     (let assignedUserIds = (case c_assignedUserIds eventData of None \<Rightarrow> [] | Some us \<Rightarrow> us);
          tagIds = (case c_tagIds eventData of None \<Rightarrow> [] | Some ts \<Rightarrow> ts);
          row = \<lparr> e_id = nid,
                  e_title = c_title eventData,
                  e_content = c_content eventData,
                  e_type = c_type eventData,
                  e_timestamp = (case c_timestamp eventData of None \<Rightarrow> today | Some t \<Rightarrow> t),
                  e_metadata = map_option (JSON_stringify J) (c_metadata eventData),
                  e_createdAt = now,
                  e_updatedAt = now,
                  e_creatorId = creator_id \<rparr>
      in case prisma_event_create d row assignedUserIds tagIds of
           Inl err \<Rightarrow> (Inl err, d)
         | Inr d' \<Rightarrow> (Inr (formatEvent J (include_relations d' row)), d'))"

text \<open>
  The \<open>data\<close> of \<open>prisma.event.update\<close>: an absent member (\<open>undefined\<close>) leaves the
  column or the relation as it is.
\<close>

record event_update_data =
  d_title :: "string option"
  d_content :: "string option"
  d_type :: "EventType option"
  d_timestamp :: "date option"
  d_metadata :: "string option option"
  d_assignedUsers :: "ident list option"
  d_tags :: "ident list option"

text \<open>
  \<open>@updatedAt\<close> stamps the row with the clock when the update writes a column of the
  row; an update whose data names no column (none at all, or relations only) leaves
  \<open>updatedAt\<close> as it is.
\<close>

definition writes_column :: "event_update_data \<Rightarrow> bool" where
  "writes_column u \<longleftrightarrow>
     d_title u \<noteq> None \<or> d_content u \<noteq> None \<or> d_type u \<noteq> None
     \<or> d_timestamp u \<noteq> None \<or> d_metadata u \<noteq> None"

definition apply_update_data :: "event_update_data \<Rightarrow> date \<Rightarrow> EventRow \<Rightarrow> EventRow" where
  "apply_update_data u now e =
     e\<lparr> e_title := (case d_title u of None \<Rightarrow> e_title e | Some v \<Rightarrow> v),
        e_content := (case d_content u of None \<Rightarrow> e_content e | Some v \<Rightarrow> v),
        e_type := (case d_type u of None \<Rightarrow> e_type e | Some v \<Rightarrow> v),
        e_timestamp := (case d_timestamp u of None \<Rightarrow> e_timestamp e | Some v \<Rightarrow> v),
        e_metadata := (case d_metadata u of None \<Rightarrow> e_metadata e | Some v \<Rightarrow> v),
        e_updatedAt := (if writes_column u then now else e_updatedAt e) \<rparr>"

text \<open>
  \<open>prisma.event.update\<close>, one transaction.
  A relation that is given is replaced: \<open>deleteMany: {}\<close> removes the event's junction
  rows, \<open>create\<close> inserts the new ones under the constraints of the schema.
\<close>

definition prisma_event_update ::
  "db \<Rightarrow> ident \<Rightarrow> event_update_data \<Rightarrow> date \<Rightarrow> prisma_error + (EventRow \<times> db)" where
  "prisma_event_update d i u now =
     (case find_event d i of
        None \<Rightarrow> Inl RecordNotFound
      | Some e \<Rightarrow>
         (case (case d_assignedUsers u of
                  None \<Rightarrow> None | Some us \<Rightarrow> nested_create_check (user_ids d) us) of
            Some err \<Rightarrow> Inl err
          | None \<Rightarrow>
             (case (case d_tags u of
                      None \<Rightarrow> None | Some ts \<Rightarrow> nested_create_check (tag_ids d) ts) of
                Some err \<Rightarrow> Inl err
              | None \<Rightarrow>
                 Inr (apply_update_data u now e,
                      d\<lparr> events := map (\<lambda>x. if e_id x = i then apply_update_data u now x else x)
                                       (events d),
                         event_user_assignments :=
                           (case d_assignedUsers u of
                              None \<Rightarrow> event_user_assignments d
                            | Some us \<Rightarrow>
                                filter (\<lambda>a. eua_eventId a \<noteq> i) (event_user_assignments d)
                                  @ assignment_rows i us),
                         event_tags :=
                           (case d_tags u of
                              None \<Rightarrow> event_tags d
                            | Some ts \<Rightarrow>
                                filter (\<lambda>a. et_eventId a \<noteq> i) (event_tags d)
                                  @ event_tag_rows i ts) \<rparr>))))"

definition prisma_eventEditHistory_create ::
  "db \<Rightarrow> EventEditHistory \<Rightarrow> prisma_error + db" where
  "prisma_eventEditHistory_create d h =
     (if h_id h \<in> set (map h_id (event_edit_history d)) then Inl UniqueConstraintFailed
      else if h_eventId h \<notin> event_ids d then Inl ForeignKeyConstraintFailed
      else Inr (d\<lparr> event_edit_history := event_edit_history d @ [h] \<rparr>))"

text \<open>
  recordEditHistory: the four comparisons in source order, then one insert when the
  \<open>changes\<close> object has a key.
\<close>

definition diff_changes :: "'j Event \<Rightarrow> 'j Event \<Rightarrow> (string \<times> change) list" where
  "diff_changes oldEvent newEvent =
     (if title oldEvent \<noteq> title newEvent
      then [(''title'', \<lparr> ch_from = VString (title oldEvent), ch_to = VString (title newEvent) \<rparr>)]
      else [])
     @ (if content oldEvent \<noteq> content newEvent
        then [(''content'', \<lparr> ch_from = VString (content oldEvent),
                               ch_to = VString (content newEvent) \<rparr>)]
        else [])
     @ (if ev_type oldEvent \<noteq> ev_type newEvent
        then [(''type'', \<lparr> ch_from = VType (ev_type oldEvent), ch_to = VType (ev_type newEvent) \<rparr>)]
        else [])
     @ (if timestamp oldEvent \<noteq> timestamp newEvent
        then [(''timestamp'', \<lparr> ch_from = VDate (timestamp oldEvent),
                                 ch_to = VDate (timestamp newEvent) \<rparr>)]
        else [])"

definition recordEditHistory ::
  "db \<Rightarrow> ident \<Rightarrow> 'j Event \<Rightarrow> 'j Event \<Rightarrow> ident \<Rightarrow> date \<Rightarrow> ident \<Rightarrow> prisma_error + db" where
  "recordEditHistory d eventId oldEvent newEvent editorId now hid =
     (let chs = diff_changes oldEvent newEvent
      in if length chs > 0
         then prisma_eventEditHistory_create d
                \<lparr> h_id = hid, h_eventId = eventId, changes = chs,
                  editedAt = now, editedBy = editorId \<rparr>
         else Inr d)"

text \<open>
  update: \<open>None\<close> is the \<open>null\<close> the method returns, both when the event is not found and
  when the \<open>catch\<close> swallows a rejected store call. \<open>hid\<close> is the cuid generated for the
  history row, should one be written.
\<close>

definition update_data :: "'j json_lib \<Rightarrow> 'j UpdateEventRequest \<Rightarrow> event_update_data" where
  "update_data J eventData =
     \<lparr> d_title = up_title eventData,
       d_content = up_content eventData,
       d_type = up_type eventData,
       d_timestamp = up_timestamp eventData,
       d_metadata = (case up_metadata eventData of
                       None \<Rightarrow> None | Some m \<Rightarrow> Some (Some (JSON_stringify J m))),
       d_assignedUsers = up_assignedUserIds eventData,
       d_tags = up_tagIds eventData \<rparr>"

definition EventRepository_update ::
  "'j json_lib \<Rightarrow> db \<Rightarrow> ident \<Rightarrow> 'j UpdateEventRequest \<Rightarrow> ident \<Rightarrow> date \<Rightarrow> ident
     \<Rightarrow> 'j Event option \<times> db" where
  "EventRepository_update J d i eventData editorId now hid =
     (case EventRepository_findById J d i of
        None \<Rightarrow> (None, d)
      | Some currentEvent \<Rightarrow>
         (case prisma_event_update d i (update_data J eventData) now of
            Inl err \<Rightarrow> (None, d)
          | Inr (event, d') \<Rightarrow>
             (let newEvent = formatEvent J (include_relations d' event)
              in case recordEditHistory d' i currentEvent newEvent editorId now hid of
                   Inl err \<Rightarrow> (None, d')
                 | Inr d'' \<Rightarrow> (Some newEvent, d''))))"

text \<open>
  \<open>prisma.event.delete\<close>: rejected when the row is absent; otherwise the row goes, and
  with it every row that references it (\<open>onDelete: Cascade\<close> on all four relations).
\<close>

definition prisma_event_delete :: "db \<Rightarrow> ident \<Rightarrow> prisma_error + db" where
  "prisma_event_delete d i =
     (case find_event d i of
        None \<Rightarrow> Inl RecordNotFound
      | Some e \<Rightarrow>
          Inr (d\<lparr> events := filter (\<lambda>x. e_id x \<noteq> i) (events d),
                  event_user_assignments :=
                    filter (\<lambda>a. eua_eventId a \<noteq> i) (event_user_assignments d),
                  event_tags := filter (\<lambda>a. et_eventId a \<noteq> i) (event_tags d),
                  attachment_rows := filter (\<lambda>a. a_eventId a \<noteq> i) (attachment_rows d),
                  event_edit_history :=
                    filter (\<lambda>h. h_eventId h \<noteq> i) (event_edit_history d) \<rparr>))"

text \<open>The \<open>try\<close>/\<open>catch\<close> of delete, applied to whatever the store call did.\<close>

definition delete_outcome :: "db \<Rightarrow> prisma_error + db \<Rightarrow> bool \<times> db" where
  "delete_outcome d r = (case r of Inl err \<Rightarrow> (False, d) | Inr d' \<Rightarrow> (True, d'))"

definition EventRepository_delete :: "db \<Rightarrow> ident \<Rightarrow> bool \<times> db" where
  "EventRepository_delete d i = delete_outcome d (prisma_event_delete d i)"

section \<open>UserRepository and TagRepository\<close>



definition findByEmailWithPassword :: "db \<Rightarrow> string \<Rightarrow> UserRow option" where
  "findByEmailWithPassword d em = find (\<lambda>u. email u = em) (users d)"

text \<open>
  verifyPassword; \<open>bcrypt.compare\<close> is a parameter. The rest pattern
  \<open>{password: _, ...userWithoutPassword}\<close> drops the hash.
\<close>

definition verifyPassword ::
  "(string \<Rightarrow> string \<Rightarrow> bool) \<Rightarrow> db \<Rightarrow> string \<Rightarrow> string \<Rightarrow> User option" where
  "verifyPassword bcrypt_compare d em pw =
     (case findByEmailWithPassword d em of
        None \<Rightarrow> None
      | Some user \<Rightarrow>
          if \<not> bcrypt_compare pw (password user) then None
          else Some (User.truncate user))"

definition findByNames :: "db \<Rightarrow> string list \<Rightarrow> Tag list" where
  "findByNames d names = filter (\<lambda>t. name t \<in> set names) (tag_rows d)"

text \<open>
  \<open>prisma.tag.create\<close>: the id is a primary key and \<open>name\<close> is \<open>@unique\<close>.
\<close>

definition TagRepository_create ::
  "db \<Rightarrow> string \<Rightarrow> string option \<Rightarrow> date \<Rightarrow> ident \<Rightarrow> (prisma_error + Tag) \<times> db" where
  "TagRepository_create d nm col now nid =
     (if nid \<in> tag_ids d \<or> nm \<in> set (map name (tag_rows d))
      then (Inl UniqueConstraintFailed, d)
      else (let tag = \<lparr> t_id = nid, name = nm, color = col, t_createdAt = now \<rparr>
            in (Inr tag, d\<lparr> tag_rows := tag_rows d @ [tag] \<rparr>)))"

definition colors :: "string list" where
  "colors = [''#3B82F6'', ''#EF4444'', ''#10B981'', ''#F59E0B'', ''#8B5CF6'',
             ''#EC4899'', ''#06B6D4'', ''#84CC16'', ''#F97316'', ''#6366F1'']"

text \<open>
  getRandomColor, from the value \<open>r\<close> that \<open>Math.random()\<close> returned. An index outside
  the array reads \<open>undefined\<close>, which the store keeps as \<open>null\<close>. The product is taken
  exactly; the rounding of the floating-point product is not modelled.
\<close>

definition getRandomColor :: "rat \<Rightarrow> string option" where
  "getRandomColor r =
     (let i = \<lfloor>r * of_nat (length colors)\<rfloor>
      in if 0 \<le> i \<and> i < int (length colors) then Some (colors ! nat i) else None)"

text \<open>
  The creations that \<open>Promise.all\<close> awaits, issued in list order. The \<open>k\<close>-th of them
  draws \<open>rnd k\<close> from \<open>Math.random\<close> and gets the cuid \<open>cuid k\<close>. A rejected creation
  does not undo the others; the first rejection is what \<open>Promise.all\<close> rejects with.
\<close>

fun create_all ::
  "db \<Rightarrow> string list \<Rightarrow> (nat \<Rightarrow> rat) \<Rightarrow> (nat \<Rightarrow> ident) \<Rightarrow> date \<Rightarrow> nat
     \<Rightarrow> (prisma_error + Tag list) \<times> db" where
  "create_all d [] rnd cuid now k = (Inr [], d)"
| "create_all d (nm # nms) rnd cuid now k =
     (case TagRepository_create d nm (getRandomColor (rnd k)) now (cuid k) of
        (Inl err, d') \<Rightarrow> (Inl err, snd (create_all d' nms rnd cuid now (Suc k)))
      | (Inr tag, d') \<Rightarrow>
          (case create_all d' nms rnd cuid now (Suc k) of
             (Inl err, d'') \<Rightarrow> (Inl err, d'')
           | (Inr tgs, d'') \<Rightarrow> (Inr (tag # tgs), d'')))"

definition createMultiple ::
  "db \<Rightarrow> string list \<Rightarrow> (nat \<Rightarrow> rat) \<Rightarrow> (nat \<Rightarrow> ident) \<Rightarrow> date
     \<Rightarrow> (prisma_error + Tag list) \<times> db" where
  "createMultiple d tagNames rnd cuid now =
     (let existingTags = findByNames d tagNames;
          existingTagNames = map name existingTags;
          newTagNames = filter (\<lambda>nm. nm \<notin> set existingTagNames) tagNames
      in if length newTagNames = 0 then (Inr existingTags, d)
         else case create_all d newTagNames rnd cuid now 0 of
                (Inl err, d') \<Rightarrow> (Inl err, d')
              | (Inr newTags, d') \<Rightarrow> (Inr (existingTags @ newTags), d'))"




section \<open>POST /api/events\<close>




section \<open>Notions used in the statements\<close>

text \<open>
  An event as formatEvent makes it from a row: the three relation arrays are present
  and \<open>metadata\<close> is the parsed form of the stored string, absent when none is stored.
\<close>

definition formatted_from :: "'j json_lib \<Rightarrow> EventRow \<Rightarrow> 'j Event \<Rightarrow> bool" where
  "formatted_from J row e \<longleftrightarrow>
     ev_id e = e_id row
     \<and> assignedUsers e \<noteq> None \<and> tags e \<noteq> None \<and> attachments e \<noteq> None
     \<and> metadata e = map_option (JSON_parse J) (e_metadata row)"

text \<open>The ids linked to an event by its junction rows, in storage order.\<close>

definition event_tag_ids :: "db \<Rightarrow> ident \<Rightarrow> ident list" where
  "event_tag_ids d i = map et_tagId (filter (\<lambda>a. et_eventId a = i) (event_tags d))"

definition event_user_ids :: "db \<Rightarrow> ident \<Rightarrow> ident list" where
  "event_user_ids d i = map eua_userId (filter (\<lambda>a. eua_eventId a = i) (event_user_assignments d))"

text \<open>
  A sequence of update calls, each with its arguments, its clock value and the cuid
  for its history row, applied one after the other.
\<close>

type_synonym 'j update_call = "ident \<times> 'j UpdateEventRequest \<times> ident \<times> date \<times> ident"

fun run_updates :: "'j json_lib \<Rightarrow> db \<Rightarrow> 'j update_call list \<Rightarrow> db" where
  "run_updates J d [] = d"
| "run_updates J d ((i, eventData, editorId, now, hid) # calls) =
     run_updates J (snd (EventRepository_update J d i eventData editorId now hid)) calls"

section \<open>Sample data\<close>

text \<open>A stand-in for the JSON library on strings: an object is written between braces.\<close>

definition J0 :: "string json_lib" where
  "J0 = \<lparr> JSON_parse = (\<lambda>s. butlast (tl s)), JSON_stringify = (\<lambda>j. CHR ''{'' # j @ ''}'') \<rparr>"

definition empty_db :: db where
  "empty_db = \<lparr> users = [], events = [], tag_rows = [], event_user_assignments = [],
                event_tags = [], attachment_rows = [], event_edit_history = [] \<rparr>"

definition sample_event :: "nat \<Rightarrow> EventRow" where
  "sample_event n =
     \<lparr> e_id = replicate n (CHR ''e''), e_title = ''Standup'', e_content = ''Daily sync'',
       e_type = SIMPLE_MESSAGE, e_timestamp = int n * 1000, e_metadata = None,
       e_createdAt = 0, e_updatedAt = 0, e_creatorId = ''U1'' \<rparr>"

definition sample_user :: UserRow where
  "sample_user =
     \<lparr> u_id = ''U1'', username = ''ann'', email = ''ann@example.com'', displayName = ''Ann'',
       u_createdAt = 0, u_updatedAt = 0, password = ''hash:secret'' \<rparr>"

definition sample_tag :: "string \<Rightarrow> string \<Rightarrow> Tag" where
  "sample_tag i nm = \<lparr> t_id = i, name = nm, color = None, t_createdAt = 0 \<rparr>"

definition sample_user2 :: UserRow where
  "sample_user2 =
     \<lparr> u_id = ''U2'', username = ''bob'', email = ''bob@example.com'', displayName = ''Bob'',
       u_createdAt = 0, u_updatedAt = 0, password = ''hash:hunter2'' \<rparr>"

text \<open>A stand-in for \<open>bcrypt.compare\<close>.\<close>

definition sample_compare :: "string \<Rightarrow> string \<Rightarrow> bool" where
  "sample_compare pw h = (h = ''hash:'' @ pw)"

text \<open>One user, two tags, and one event of that user.\<close>

definition db1 :: db where
  "db1 = empty_db\<lparr> users := [sample_user],
                    tag_rows := [sample_tag ''t1'' ''work'', sample_tag ''t2'' ''home''],
                    events := [(sample_event 1)\<lparr> e_metadata := Some ''{k}'' \<rparr>],
                    event_tags := [\<lparr> et_eventId = ''e'', et_tagId = ''t2'' \<rparr>] \<rparr>"

text \<open>The same store with a second user, stored after the first.\<close>

definition db2 :: db where
  "db2 = db1\<lparr> users := [sample_user, sample_user2] \<rparr>"

definition no_change :: "string UpdateEventRequest" where
  "no_change = \<lparr> up_title = None, up_content = None, up_type = None, up_timestamp = None,
                  up_metadata = None, up_assignedUserIds = None, up_tagIds = None \<rparr>"

text \<open>The creation of the example in the specification, and two later updates.\<close>

definition sample_request :: "string CreateEventRequest" where
  "sample_request = \<lparr> c_title = ''Standup'', c_content = ''Daily sync'',
       c_type = SIMPLE_MESSAGE, c_timestamp = None, c_metadata = None,
       c_assignedUserIds = None, c_tagIds = Some [''t1''] \<rparr>"

definition sample_created :: "(prisma_error + string Event) \<times> db" where
  "sample_created = EventRepository_create J0 db1 sample_request ''U1'' 9 10 ''n1''"

definition sample_calls :: "string update_call list" where
  "sample_calls =
     [(''n1'', no_change\<lparr> up_title := Some ''Standup notes'' \<rparr>, ''U1'', 20, ''h1''),
      (''n1'', no_change\<lparr> up_tagIds := Some [] \<rparr>, ''U1'', 30, ''h2'')]"


text \<open>A source of \<open>Math.random\<close> values and a source of cuids.\<close>

definition sample_rnd :: "nat \<Rightarrow> rat" where
  "sample_rnd k = (if even k then 3 / 10 else 9 / 10)"

definition sample_cuid :: "nat \<Rightarrow> ident" where
  "sample_cuid k = CHR ''c'' # replicate k (CHR ''x'')"

text \<open>Two events with one timestamp, stored in the order \<open>e\<close>, \<open>ee\<close>.\<close>

definition db_ties :: db where
  "db_ties = empty_db\<lparr> events := [sample_event 1, (sample_event 2)\<lparr> e_timestamp := 1000 \<rparr>] \<rparr>"


section \<open>Pagination\<close>











text \<open>Of two events with one timestamp the one stored later comes first.\<close>

lemma db_ties_order:
  "map e_id (order_by_timestamp_desc (events db_ties)) = [''ee'', ''e'']"
  by code_simp



section \<open>Credentials\<close>

lemma find_SomeD: "find P xs = Some x \<Longrightarrow> x \<in> set xs \<and> P x"
  by (induction xs) (auto split: if_splits)

lemma find_unique:
  assumes "distinct (map f xs)" and "x \<in> set xs" and "f x = k"
  shows "find (\<lambda>y. f y = k) xs = Some x"
  using assms by (induction xs) (auto simp: image_iff)

text \<open>
  C7. verifyPassword returns the public profile, which has no credential hash, exactly
  when a user with the email exists and the password matches the stored hash; otherwise
  it returns \<open>null\<close>, the same value whether the email is unknown or the password is
  wrong. The user looked up is a stored user with the email asked for, the only one
  since \<open>email\<close> is \<open>@unique\<close>.
\<close>

theorem verifyPassword_result:
  "(\<forall>p. verifyPassword cmp d em pw = Some p \<longleftrightarrow>
        (\<exists>u. findByEmailWithPassword d em = Some u \<and> cmp pw (password u)
             \<and> p = \<lparr> u_id = u_id u, username = username u, email = email u,
                      displayName = displayName u, u_createdAt = u_createdAt u,
                      u_updatedAt = u_updatedAt u \<rparr>))
   \<and> (verifyPassword cmp d em pw = None \<longleftrightarrow>
        \<not> (\<exists>u. findByEmailWithPassword d em = Some u \<and> cmp pw (password u)))
   \<and> (findByEmailWithPassword d em = None \<longleftrightarrow> \<not> (\<exists>u \<in> set (users d). email u = em))
   \<and> (\<forall>d2 em2 pw2.
         \<not> (\<exists>u \<in> set (users d). email u = em)
         \<and> (\<exists>u. findByEmailWithPassword d2 em2 = Some u \<and> \<not> cmp pw2 (password u))
         \<longrightarrow> verifyPassword cmp d em pw = verifyPassword cmp d2 em2 pw2)
   \<and> (\<forall>u. findByEmailWithPassword d em = Some u \<longrightarrow> u \<in> set (users d) \<and> email u = em)
   \<and> (distinct (map email (users d)) \<longrightarrow>
        (\<forall>u \<in> set (users d). email u = em \<longrightarrow> findByEmailWithPassword d em = Some u))
   \<and> (\<forall>p. verifyPassword cmp d em pw = Some p \<longrightarrow>
        email p = em
        \<and> (\<exists>u \<in> set (users d). email u = em \<and> cmp pw (password u)
              \<and> u_id p = u_id u \<and> username p = username u
              \<and> displayName p = displayName u))
   \<and> (distinct (map email (users d)) \<longrightarrow>
        (\<forall>u \<in> set (users d). email u = em \<longrightarrow>
           verifyPassword cmp d em pw
             = (if cmp pw (password u)
                then Some \<lparr> u_id = u_id u, username = username u, email = em,
                            displayName = displayName u, u_createdAt = u_createdAt u,
                            u_updatedAt = u_updatedAt u \<rparr>
                else None)))"
proof -
  have none: "findByEmailWithPassword d em = None \<longleftrightarrow> \<not> (\<exists>u \<in> set (users d). email u = em)"
    by (auto simp: findByEmailWithPassword_def find_None_iff)
  have some: "\<forall>p. verifyPassword cmp d em pw = Some p \<longleftrightarrow>
        (\<exists>u. findByEmailWithPassword d em = Some u \<and> cmp pw (password u)
             \<and> p = \<lparr> u_id = u_id u, username = username u, email = email u,
                      displayName = displayName u, u_createdAt = u_createdAt u,
                      u_updatedAt = u_updatedAt u \<rparr>)"
    by (auto simp: verifyPassword_def User.defs split: option.splits)
  have null: "verifyPassword cmp d em pw = None \<longleftrightarrow>
        \<not> (\<exists>u. findByEmailWithPassword d em = Some u \<and> cmp pw (password u))"
    by (auto simp: verifyPassword_def split: option.splits)
  have same: "\<forall>d2 em2 pw2.
         \<not> (\<exists>u \<in> set (users d). email u = em)
         \<and> (\<exists>u. findByEmailWithPassword d2 em2 = Some u \<and> \<not> cmp pw2 (password u))
         \<longrightarrow> verifyPassword cmp d em pw = verifyPassword cmp d2 em2 pw2"
    using none by (auto simp: verifyPassword_def split: option.splits)
  have found: "\<forall>u. findByEmailWithPassword d em = Some u \<longrightarrow> u \<in> set (users d) \<and> email u = em"
    by (auto simp: findByEmailWithPassword_def dest: find_SomeD)
  have uniq: "distinct (map email (users d)) \<longrightarrow>
        (\<forall>u \<in> set (users d). email u = em \<longrightarrow> findByEmailWithPassword d em = Some u)"
    unfolding findByEmailWithPassword_def using find_unique [of email "users d" _ em] by blast
  have prof: "\<forall>p. verifyPassword cmp d em pw = Some p \<longrightarrow>
        email p = em
        \<and> (\<exists>u \<in> set (users d). email u = em \<and> cmp pw (password u)
              \<and> u_id p = u_id u \<and> username p = username u
              \<and> displayName p = displayName u)"
  proof (intro allI impI)
    fix p assume "verifyPassword cmp d em pw = Some p"
    with some obtain u where u: "findByEmailWithPassword d em = Some u" "cmp pw (password u)"
        "p = \<lparr> u_id = u_id u, username = username u, email = email u,
                      displayName = displayName u, u_createdAt = u_createdAt u,
                      u_updatedAt = u_updatedAt u \<rparr>"
      by blast
    from found u(1) have m: "u \<in> set (users d)" "email u = em" by blast+
    have "email p = em" "u_id p = u_id u" "username p = username u"
      "displayName p = displayName u"
      using u(3) m(2) by simp_all
    with m u(2) show "email p = em
        \<and> (\<exists>u \<in> set (users d). email u = em \<and> cmp pw (password u)
              \<and> u_id p = u_id u \<and> username p = username u
              \<and> displayName p = displayName u)"
      by blast
  qed
  have det: "distinct (map email (users d)) \<longrightarrow>
        (\<forall>u \<in> set (users d). email u = em \<longrightarrow>
           verifyPassword cmp d em pw
             = (if cmp pw (password u)
                then Some \<lparr> u_id = u_id u, username = username u, email = em,
                            displayName = displayName u, u_createdAt = u_createdAt u,
                            u_updatedAt = u_updatedAt u \<rparr>
                else None))"
  proof (intro impI ballI)
    fix u assume "distinct (map email (users d))" "u \<in> set (users d)" "email u = em"
    with uniq have f: "findByEmailWithPassword d em = Some u" by blast
    show "verifyPassword cmp d em pw
             = (if cmp pw (password u)
                then Some \<lparr> u_id = u_id u, username = username u, email = em,
                            displayName = displayName u, u_createdAt = u_createdAt u,
                            u_updatedAt = u_updatedAt u \<rparr>
                else None)"
      using f \<open>email u = em\<close> by (auto simp: verifyPassword_def User.defs)
  qed
  show ?thesis
    apply (intro conjI)
    subgoal by (rule some)
    subgoal by (rule null)
    subgoal by (rule none)
    subgoal by (rule same)
    subgoal by (rule found)
    subgoal by (rule uniq)
    subgoal by (rule prof)
    subgoal by (rule det)
    done
qed

theorem verifyPassword_result_witness:
  "verifyPassword sample_compare db2 ''ann@example.com'' ''secret''
     = Some \<lparr> u_id = ''U1'', username = ''ann'', email = ''ann@example.com'',
              displayName = ''Ann'', u_createdAt = 0, u_updatedAt = 0 \<rparr>
   \<and> verifyPassword sample_compare db2 ''bob@example.com'' ''hunter2''
     = Some \<lparr> u_id = ''U2'', username = ''bob'', email = ''bob@example.com'',
              displayName = ''Bob'', u_createdAt = 0, u_updatedAt = 0 \<rparr>
   \<and> \<not> (\<exists>u \<in> set (users db2). email u = ''eve@example.com'')
   \<and> verifyPassword sample_compare db2 ''eve@example.com'' ''secret'' = None
   \<and> verifyPassword sample_compare db2 ''bob@example.com'' ''secret'' = None
   \<and> verifyPassword sample_compare db2 ''ann@example.com'' ''guess'' = None"
proof -
  have us: "users db2 = [sample_user, sample_user2]" by (simp add: db2_def db1_def empty_db_def)
  have dist: "distinct (map email (users db2))"
    by (simp add: us sample_user_def sample_user2_def)
  have ann: "sample_user \<in> set (users db2)" "email sample_user = ''ann@example.com''"
    and bob: "sample_user2 \<in> set (users db2)" "email sample_user2 = ''bob@example.com''"
    by (simp_all add: us sample_user_def sample_user2_def)
  have c: "sample_compare ''secret'' (password sample_user)"
    "\<not> sample_compare ''guess'' (password sample_user)"
    "sample_compare ''hunter2'' (password sample_user2)"
    "\<not> sample_compare ''secret'' (password sample_user2)"
    by (simp_all add: sample_compare_def sample_user_def sample_user2_def)
  have n: "\<not> (\<exists>u \<in> set (users db2). email u = ''eve@example.com'')"
    by (simp add: us sample_user_def sample_user2_def)
  note det = verifyPassword_result [of sample_compare db2, THEN conjunct2, THEN conjunct2,
      THEN conjunct2, THEN conjunct2, THEN conjunct2, THEN conjunct2, THEN conjunct2,
      THEN mp, OF dist, THEN bspec, THEN mp]
  have 1: "verifyPassword sample_compare db2 ''ann@example.com'' ''secret''
     = Some \<lparr> u_id = ''U1'', username = ''ann'', email = ''ann@example.com'',
              displayName = ''Ann'', u_createdAt = 0, u_updatedAt = 0 \<rparr>"
    using det [OF ann, of "''secret''"] c(1) by (simp add: sample_user_def)
  have 2: "verifyPassword sample_compare db2 ''bob@example.com'' ''hunter2''
     = Some \<lparr> u_id = ''U2'', username = ''bob'', email = ''bob@example.com'',
              displayName = ''Bob'', u_createdAt = 0, u_updatedAt = 0 \<rparr>"
    using det [OF bob, of "''hunter2''"] c(3) by (simp add: sample_user2_def)
  have 3: "verifyPassword sample_compare db2 ''bob@example.com'' ''secret'' = None"
    using det [OF bob, of "''secret''"] c(4) by simp
  have 4: "verifyPassword sample_compare db2 ''ann@example.com'' ''guess'' = None"
    using det [OF ann, of "''guess''"] c(2) by simp
  have 5: "verifyPassword sample_compare db2 ''eve@example.com'' ''secret'' = None"
    using verifyPassword_result [of sample_compare db2 "''eve@example.com''" "''secret''",
        THEN conjunct2, THEN conjunct1]
      verifyPassword_result [of sample_compare db2 "''eve@example.com''" "''secret''",
        THEN conjunct2, THEN conjunct2, THEN conjunct1] n
    by (cases "findByEmailWithPassword db2 ''eve@example.com''") auto
  from 1 2 3 4 5 n show ?thesis by blast
qed

section \<open>Deletion\<close>

lemma find_event_None: "find_event d i = None \<longleftrightarrow> i \<notin> event_ids d"
  by (auto simp: find_event_def event_ids_def find_None_iff)

lemma find_event_SomeD: "find_event d i = Some e \<Longrightarrow> e \<in> set (events d) \<and> e_id e = i"
  by (auto simp: find_event_def dest: find_SomeD)

text \<open>
  C9. delete returns \<open>false\<close> when no event has the id, and whenever the store rejects
  the deletion; it returns \<open>true\<close> when the event existed, and the event and the rows
  that reference it are then gone. It always returns a value.
\<close>

theorem delete_result:
  "(find_event d i = None \<longrightarrow> EventRepository_delete d i = (False, d))
   \<and> (find_event d i \<noteq> None \<longrightarrow>
        (\<exists>d'. EventRepository_delete d i = (True, d')
           \<and> find_event d' i = None
           \<and> events d' = filter (\<lambda>x. e_id x \<noteq> i) (events d)
           \<and> (\<forall>a \<in> set (event_user_assignments d'). eua_eventId a \<noteq> i)
           \<and> (\<forall>a \<in> set (event_tags d'). et_eventId a \<noteq> i)
           \<and> (\<forall>a \<in> set (attachment_rows d'). a_eventId a \<noteq> i)
           \<and> (\<forall>h \<in> set (event_edit_history d'). h_eventId h \<noteq> i)
           \<and> users d' = users d \<and> tag_rows d' = tag_rows d))
   \<and> (\<forall>err. delete_outcome d (Inl err) = (False, d))
   \<and> (\<forall>d'. delete_outcome d (Inr d') = (True, d'))
   \<and> (\<exists>b d'. EventRepository_delete d i = (b, d'))"
  by (auto simp: EventRepository_delete_def delete_outcome_def prisma_event_delete_def
        find_event_def find_None_iff split: option.splits dest: find_SomeD)

theorem delete_result_witness:
  "find_event db1 ''x'' = None \<and> EventRepository_delete db1 ''x'' = (False, db1)
   \<and> find_event db1 ''e'' \<noteq> None \<and> fst (EventRepository_delete db1 ''e'')
   \<and> events (snd (EventRepository_delete db1 ''e'')) = []
   \<and> event_tags (snd (EventRepository_delete db1 ''e'')) = []"
proof -
  have a: "find_event db1 ''x'' = None" "find_event db1 ''e'' \<noteq> None"
    by (simp_all add: find_event_def db1_def empty_db_def sample_event_def)
  have e: "events db1 = [(sample_event 1)\<lparr> e_metadata := Some ''{k}'' \<rparr>]"
     "event_tags db1 = [\<lparr> et_eventId = ''e'', et_tagId = ''t2'' \<rparr>]"
    by (simp_all add: db1_def empty_db_def)
  from delete_result [of db1 "''x''"] a(1)
  have 1: "EventRepository_delete db1 ''x'' = (False, db1)" by blast
  from delete_result [of db1 "''e''"] a(2)
  obtain d' where d': "EventRepository_delete db1 ''e'' = (True, d')"
     "events d' = filter (\<lambda>x. e_id x \<noteq> ''e'') (events db1)"
     "\<forall>a \<in> set (event_tags d'). et_eventId a \<noteq> ''e''"
    by blast
  have 2: "events d' = []" using d'(2) e(1) by (simp add: sample_event_def)
  have "event_tags d' = filter (\<lambda>a. et_eventId a \<noteq> ''e'') (event_tags db1)"
    using d'(1) a(2) by (auto simp: EventRepository_delete_def delete_outcome_def
        prisma_event_delete_def split: option.splits)
  then have 3: "event_tags d' = []" using e(2) by simp
  from 1 2 3 a d'(1) show ?thesis by simp
qed

section \<open>Updates\<close>

lemma formatEvent_fields [simp]:
  "ev_id (formatEvent J raw) = e_id raw"
  "title (formatEvent J raw) = e_title raw"
  "content (formatEvent J raw) = e_content raw"
  "ev_type (formatEvent J raw) = e_type raw"
  "timestamp (formatEvent J raw) = e_timestamp raw"
  "createdAt (formatEvent J raw) = e_createdAt raw"
  "updatedAt (formatEvent J raw) = e_updatedAt raw"
  "creatorId (formatEvent J raw) = e_creatorId raw"
  by (simp_all add: formatEvent_def)

lemma include_relations_row [simp]:
  "e_id (include_relations d e) = e_id e"
  "e_title (include_relations d e) = e_title e"
  "e_content (include_relations d e) = e_content e"
  "e_type (include_relations d e) = e_type e"
  "e_timestamp (include_relations d e) = e_timestamp e"
  "e_metadata (include_relations d e) = e_metadata e"
  "e_createdAt (include_relations d e) = e_createdAt e"
  "e_updatedAt (include_relations d e) = e_updatedAt e"
  "e_creatorId (include_relations d e) = e_creatorId e"
  by (simp_all add: include_relations_def EventRow.defs)

lemma apply_update_data_fields [simp]:
  "e_id (apply_update_data u now e) = e_id e"
  "e_createdAt (apply_update_data u now e) = e_createdAt e"
  "e_creatorId (apply_update_data u now e) = e_creatorId e"
  "e_updatedAt (apply_update_data u now e) = (if writes_column u then now else e_updatedAt e)"
  "e_title (apply_update_data u now e) = (case d_title u of None \<Rightarrow> e_title e | Some v \<Rightarrow> v)"
  "e_content (apply_update_data u now e) = (case d_content u of None \<Rightarrow> e_content e | Some v \<Rightarrow> v)"
  "e_type (apply_update_data u now e) = (case d_type u of None \<Rightarrow> e_type e | Some v \<Rightarrow> v)"
  "e_timestamp (apply_update_data u now e)
     = (case d_timestamp u of None \<Rightarrow> e_timestamp e | Some v \<Rightarrow> v)"
  "e_metadata (apply_update_data u now e)
     = (case d_metadata u of None \<Rightarrow> e_metadata e | Some v \<Rightarrow> v)"
  by (simp_all add: apply_update_data_def)

lemma find_map_id:
  assumes "\<And>x. e_id (g x) = e_id x"
  shows "find (\<lambda>e. e_id e = j) (map g xs) = map_option g (find (\<lambda>e. e_id e = j) xs)"
  using assms by (induction xs) auto

lemma map_id_preserved:
  assumes "\<And>x. e_id (g x) = e_id x"
  shows "map e_id (map g xs) = map e_id xs"
  using assms by (induction xs) auto

text \<open>What an accepted \<open>prisma.event.update\<close> leaves behind.\<close>

lemma prisma_event_update_Inr:
  assumes "prisma_event_update d i u now = Inr (e', d1)"
  shows "\<exists>old. find_event d i = Some old \<and> e' = apply_update_data u now old
     \<and> find_event d1 i = Some e'
     \<and> events d1 = map (\<lambda>x. if e_id x = i then apply_update_data u now x else x) (events d)
     \<and> event_ids d1 = event_ids d
     \<and> event_edit_history d1 = event_edit_history d
     \<and> users d1 = users d \<and> tag_rows d1 = tag_rows d \<and> attachment_rows d1 = attachment_rows d"
proof -
  from assms obtain old where old: "find_event d i = Some old"
    by (auto simp: prisma_event_update_def split: option.splits)
  let ?g = "\<lambda>x. if e_id x = i then apply_update_data u now x else x"
  have g: "\<And>x. e_id (?g x) = e_id x" by simp
  from assms old have e': "e' = apply_update_data u now old"
    and ev: "events d1 = map ?g (events d)"
    and rest: "event_edit_history d1 = event_edit_history d" "users d1 = users d"
      "tag_rows d1 = tag_rows d" "attachment_rows d1 = attachment_rows d"
    by (auto simp: prisma_event_update_def split: option.splits)
  have oid: "e_id old = i" using old by (auto simp: find_event_def dest: find_SomeD)
  have "find_event d1 i = map_option ?g (find_event d i)"
    unfolding find_event_def ev by (rule find_map_id [OF g])
  then have f: "find_event d1 i = Some e'" using old e' oid by simp
  have ids: "event_ids d1 = event_ids d"
    unfolding event_ids_def ev using map_id_preserved [OF g] by metis
  from old e' f ev ids rest show ?thesis by blast
qed

lemma prisma_event_update_Inl:
  "prisma_event_update d i u now = Inl err \<longleftrightarrow>
     (find_event d i = None \<and> err = RecordNotFound)
     \<or> (find_event d i \<noteq> None
         \<and> (case d_assignedUsers u of None \<Rightarrow> None
             | Some us \<Rightarrow> nested_create_check (user_ids d) us) = Some err)
     \<or> (find_event d i \<noteq> None
         \<and> (case d_assignedUsers u of None \<Rightarrow> None
             | Some us \<Rightarrow> nested_create_check (user_ids d) us) = None
         \<and> (case d_tags u of None \<Rightarrow> None
             | Some ts \<Rightarrow> nested_create_check (tag_ids d) ts) = Some err)"
  by (auto simp: prisma_event_update_def split: option.splits)

lemma findById_Some:
  "find_event d i = Some old \<Longrightarrow>
     EventRepository_findById J d i = Some (formatEvent J (include_relations d old))"
  by (simp add: EventRepository_findById_def)

lemma findById_None:
  "find_event d i = None \<Longrightarrow> EventRepository_findById J d i = None"
  by (simp add: EventRepository_findById_def)

text \<open>The history insert of update is accepted when the generated id is new.\<close>

lemma recordEditHistory_fresh:
  assumes "hid \<notin> set (map h_id (event_edit_history d1))" and "i \<in> event_ids d1"
  shows "recordEditHistory d1 i oldEvent newEvent editorId now hid
     = Inr (if diff_changes oldEvent newEvent = [] then d1
            else d1\<lparr> event_edit_history := event_edit_history d1 @
                   [\<lparr> h_id = hid, h_eventId = i, changes = diff_changes oldEvent newEvent,
                      editedAt = now, editedBy = editorId \<rparr>] \<rparr>)"
  using assms by (simp add: recordEditHistory_def prisma_eventEditHistory_create_def Let_def)

text \<open>update on an existing event, by what the store answers.\<close>

lemma update_rejected:
  assumes "find_event d i = Some old"
    and "prisma_event_update d i (update_data J req) now = Inl err"
  shows "EventRepository_update J d i req editor now hid = (None, d)"
  using assms by (simp add: EventRepository_update_def findById_Some)

lemma update_accepted:
  assumes "find_event d i = Some old"
    and "hid \<notin> set (map h_id (event_edit_history d))"
    and "prisma_event_update d i (update_data J req) now = Inr (e', d1)"
  shows "EventRepository_update J d i req editor now hid
     = (Some (formatEvent J (include_relations d1 e')),
        if diff_changes (formatEvent J (include_relations d old))
             (formatEvent J (include_relations d1 e')) = [] then d1
        else d1\<lparr> event_edit_history := event_edit_history d1 @
               [\<lparr> h_id = hid, h_eventId = i,
                  changes = diff_changes (formatEvent J (include_relations d old))
                              (formatEvent J (include_relations d1 e')),
                  editedAt = now, editedBy = editor \<rparr>] \<rparr>)"
proof -
  from prisma_event_update_Inr [OF assms(3)]
  have h: "event_edit_history d1 = event_edit_history d" and ids: "event_ids d1 = event_ids d"
    by blast+
  have "i \<in> event_ids d" using assms(1) find_event_None [of d i] by simp
  then have "i \<in> event_ids d1" using ids by simp
  moreover have "hid \<notin> set (map h_id (event_edit_history d1))" using assms(2) h by simp
  ultimately show ?thesis
    using assms(1,3)
    by (simp add: EventRepository_update_def findById_Some recordEditHistory_fresh Let_def)
qed

lemma diff_changes_rows:
  "diff_changes (formatEvent J (include_relations d old)) (formatEvent J (include_relations d1 new))
   = (if e_title old \<noteq> e_title new
      then [(''title'', \<lparr> ch_from = VString (e_title old), ch_to = VString (e_title new) \<rparr>)]
      else [])
     @ (if e_content old \<noteq> e_content new
        then [(''content'', \<lparr> ch_from = VString (e_content old),
                               ch_to = VString (e_content new) \<rparr>)]
        else [])
     @ (if e_type old \<noteq> e_type new
        then [(''type'', \<lparr> ch_from = VType (e_type old), ch_to = VType (e_type new) \<rparr>)]
        else [])
     @ (if e_timestamp old \<noteq> e_timestamp new
        then [(''timestamp'', \<lparr> ch_from = VDate (e_timestamp old),
                                 ch_to = VDate (e_timestamp new) \<rparr>)]
        else [])"
  by (simp add: diff_changes_def)

lemma diff_changes_empty:
  "diff_changes a b = [] \<longleftrightarrow>
     title a = title b \<and> content a = content b \<and> ev_type a = ev_type b
     \<and> timestamp a = timestamp b"
  by (auto simp: diff_changes_def)

lemma diff_changes_lookup:
  "map_of (diff_changes a b) ''title''
     = (if title a \<noteq> title b
        then Some \<lparr> ch_from = VString (title a), ch_to = VString (title b) \<rparr> else None)"
  "map_of (diff_changes a b) ''content''
     = (if content a \<noteq> content b
        then Some \<lparr> ch_from = VString (content a), ch_to = VString (content b) \<rparr> else None)"
  "map_of (diff_changes a b) ''type''
     = (if ev_type a \<noteq> ev_type b
        then Some \<lparr> ch_from = VType (ev_type a), ch_to = VType (ev_type b) \<rparr> else None)"
  "map_of (diff_changes a b) ''timestamp''
     = (if timestamp a \<noteq> timestamp b
        then Some \<lparr> ch_from = VDate (timestamp a), ch_to = VDate (timestamp b) \<rparr> else None)"
  by (simp_all add: diff_changes_def)

lemma diff_changes_keys:
  "fst ` set (diff_changes a b) \<subseteq> {''title'', ''content'', ''type'', ''timestamp''}"
  "distinct (map fst (diff_changes a b))"
  by (auto simp: diff_changes_def)

text \<open>
  C1. An update of an existing event that changes the stored title, content, type or
  timestamp appends exactly one history row, whose \<open>changes\<close> has a \<open>{from, to}\<close> entry
  for each field that changed and none for a field that did not; an update that changes
  none of the four (one that replaces only the assigned users or the tags, say)
  appends no row. The generated id of the history row is assumed new.
\<close>

theorem edit_history_recorded:
  assumes "find_event d i = Some old"
    and "hid \<notin> set (map h_id (event_edit_history d))"
    and "EventRepository_update J d i req editor now hid = (res, d')"
  shows "\<exists>new chs. find_event d' i = Some new
     \<and> (if e_title old \<noteq> e_title new \<or> e_content old \<noteq> e_content new
            \<or> e_type old \<noteq> e_type new \<or> e_timestamp old \<noteq> e_timestamp new
         then event_edit_history d' = event_edit_history d @
                [\<lparr> h_id = hid, h_eventId = i, changes = chs,
                   editedAt = now, editedBy = editor \<rparr>]
         else event_edit_history d' = event_edit_history d)
     \<and> map_of chs ''title''
         = (if e_title old \<noteq> e_title new
            then Some \<lparr> ch_from = VString (e_title old), ch_to = VString (e_title new) \<rparr>
            else None)
     \<and> map_of chs ''content''
         = (if e_content old \<noteq> e_content new
            then Some \<lparr> ch_from = VString (e_content old), ch_to = VString (e_content new) \<rparr>
            else None)
     \<and> map_of chs ''type''
         = (if e_type old \<noteq> e_type new
            then Some \<lparr> ch_from = VType (e_type old), ch_to = VType (e_type new) \<rparr>
            else None)
     \<and> map_of chs ''timestamp''
         = (if e_timestamp old \<noteq> e_timestamp new
            then Some \<lparr> ch_from = VDate (e_timestamp old), ch_to = VDate (e_timestamp new) \<rparr>
            else None)
     \<and> fst ` set chs \<subseteq> {''title'', ''content'', ''type'', ''timestamp''}
     \<and> distinct (map fst chs)
     \<and> (res \<noteq> None \<longrightarrow>
           e_title new = (case up_title req of None \<Rightarrow> e_title old | Some v \<Rightarrow> v)
         \<and> e_content new = (case up_content req of None \<Rightarrow> e_content old | Some v \<Rightarrow> v)
         \<and> e_type new = (case up_type req of None \<Rightarrow> e_type old | Some v \<Rightarrow> v)
         \<and> e_timestamp new = (case up_timestamp req of None \<Rightarrow> e_timestamp old | Some v \<Rightarrow> v))
     \<and> (res = None \<longrightarrow> d' = d)
     \<and> (up_title req = None \<and> up_content req = None \<and> up_type req = None
          \<and> up_timestamp req = None \<longrightarrow> event_edit_history d' = event_edit_history d)"
proof (cases "prisma_event_update d i (update_data J req) now")
  case (Inl err)
  from update_rejected [OF assms(1) Inl] assms(3)
  have r: "res = None" "d' = d" by simp_all
  let ?a = "formatEvent J (include_relations d old)"
  show ?thesis
    apply (rule exI [of _ old], rule exI [of _ "diff_changes ?a ?a"])
    using r assms(1) by (simp add: diff_changes_def)
next
  case (Inr p)
  obtain new d1 where p: "p = (new, d1)" by (cases p)
  note acc = update_accepted [OF assms(1,2) Inr [unfolded p], of editor]
  from prisma_event_update_Inr [OF Inr [unfolded p]] assms(1)
  have new: "new = apply_update_data (update_data J req) now old"
    and f1: "find_event d1 i = Some new"
    and h1: "event_edit_history d1 = event_edit_history d"
    by auto
  let ?a = "formatEvent J (include_relations d old)"
  let ?b = "formatEvent J (include_relations d1 new)"
  let ?chs = "diff_changes ?a ?b"
  have res: "res = Some ?b" using acc assms(3) by simp
  have d': "d' = (if ?chs = [] then d1
        else d1\<lparr> event_edit_history := event_edit_history d1 @
               [\<lparr> h_id = hid, h_eventId = i, changes = ?chs,
                  editedAt = now, editedBy = editor \<rparr>] \<rparr>)"
    using acc assms(3) by simp
  have f': "find_event d' i = Some new" using f1 d' by (simp add: find_event_def)
  have hist: "if e_title old \<noteq> e_title new \<or> e_content old \<noteq> e_content new
            \<or> e_type old \<noteq> e_type new \<or> e_timestamp old \<noteq> e_timestamp new
         then event_edit_history d' = event_edit_history d @
                [\<lparr> h_id = hid, h_eventId = i, changes = ?chs,
                   editedAt = now, editedBy = editor \<rparr>]
         else event_edit_history d' = event_edit_history d"
    using d' h1 diff_changes_empty [of ?a ?b] by auto
  have req: "e_title new = (case up_title req of None \<Rightarrow> e_title old | Some v \<Rightarrow> v)"
    "e_content new = (case up_content req of None \<Rightarrow> e_content old | Some v \<Rightarrow> v)"
    "e_type new = (case up_type req of None \<Rightarrow> e_type old | Some v \<Rightarrow> v)"
    "e_timestamp new = (case up_timestamp req of None \<Rightarrow> e_timestamp old | Some v \<Rightarrow> v)"
    using new by (simp_all add: update_data_def)
  have only: "up_title req = None \<and> up_content req = None \<and> up_type req = None
          \<and> up_timestamp req = None \<longrightarrow> event_edit_history d' = event_edit_history d"
    using hist req by auto
  have lk: "map_of ?chs ''title''
         = (if e_title old \<noteq> e_title new
            then Some \<lparr> ch_from = VString (e_title old), ch_to = VString (e_title new) \<rparr>
            else None)"
    "map_of ?chs ''content''
         = (if e_content old \<noteq> e_content new
            then Some \<lparr> ch_from = VString (e_content old), ch_to = VString (e_content new) \<rparr>
            else None)"
    "map_of ?chs ''type''
         = (if e_type old \<noteq> e_type new
            then Some \<lparr> ch_from = VType (e_type old), ch_to = VType (e_type new) \<rparr>
            else None)"
    "map_of ?chs ''timestamp''
         = (if e_timestamp old \<noteq> e_timestamp new
            then Some \<lparr> ch_from = VDate (e_timestamp old), ch_to = VDate (e_timestamp new) \<rparr>
            else None)"
    using diff_changes_lookup [of ?a ?b] by simp_all
  show ?thesis
    apply (rule exI [of _ new], rule exI [of _ ?chs])
    apply (intro conjI)
    subgoal by (rule f')
    subgoal by (rule hist)
    subgoal by (rule lk(1))
    subgoal by (rule lk(2))
    subgoal by (rule lk(3))
    subgoal by (rule lk(4))
    subgoal by (rule diff_changes_keys(1))
    subgoal by (rule diff_changes_keys(2))
    subgoal using req by blast
    subgoal using res by simp
    subgoal by (rule only)
    done
qed

lemmas sample_defs = db1_def empty_db_def sample_event_def sample_user_def sample_tag_def
  no_change_def J0_def

lemma db1_event: "find_event db1 ''e'' = Some ((sample_event 1)\<lparr> e_metadata := Some ''{k}'' \<rparr>)"
  by (simp add: find_event_def sample_defs)

lemma db1_history: "event_edit_history db1 = []"
  by (simp add: sample_defs)

theorem edit_history_recorded_witness:
  "find_event db1 ''e'' = Some ((sample_event 1)\<lparr> e_metadata := Some ''{k}'' \<rparr>)
   \<and> ''h1'' \<notin> set (map h_id (event_edit_history db1))
   \<and> (\<exists>chs. event_edit_history (snd (EventRepository_update J0 db1 ''e''
                (no_change\<lparr> up_title := Some ''Standup notes'' \<rparr>) ''U1'' 5 ''h1''))
             = [\<lparr> h_id = ''h1'', h_eventId = ''e'', changes = chs,
                  editedAt = 5, editedBy = ''U1'' \<rparr>]
          \<and> map_of chs ''title''
              = Some \<lparr> ch_from = VString ''Standup'', ch_to = VString ''Standup notes'' \<rparr>
          \<and> map_of chs ''content'' = None \<and> map_of chs ''type'' = None
          \<and> map_of chs ''timestamp'' = None)
   \<and> event_edit_history (snd (EventRepository_update J0 db1 ''e''
                (no_change\<lparr> up_tagIds := Some [''t1''] \<rparr>) ''U1'' 5 ''h1'')) = []"
proof -
  let ?old = "(sample_event 1)\<lparr> e_metadata := Some ''{k}'' \<rparr>"
  let ?rq = "no_change\<lparr> up_title := Some ''Standup notes'' \<rparr>"
  let ?rq2 = "no_change\<lparr> up_tagIds := Some [''t1''] \<rparr>"
  have fresh: "''h1'' \<notin> set (map h_id (event_edit_history db1))" by (simp add: db1_history)
  obtain res d' where u: "EventRepository_update J0 db1 ''e'' ?rq ''U1'' 5 ''h1'' = (res, d')"
    by (cases "EventRepository_update J0 db1 ''e'' ?rq ''U1'' 5 ''h1''")
  have "fst (EventRepository_update J0 db1 ''e'' ?rq ''U1'' 5 ''h1'') \<noteq> None" by code_simp
  then have ok: "res \<noteq> None" using u by simp
  have 1: "\<exists>chs. event_edit_history d'
             = [\<lparr> h_id = ''h1'', h_eventId = ''e'', changes = chs,
                  editedAt = 5, editedBy = ''U1'' \<rparr>]
          \<and> map_of chs ''title''
              = Some \<lparr> ch_from = VString ''Standup'', ch_to = VString ''Standup notes'' \<rparr>
          \<and> map_of chs ''content'' = None \<and> map_of chs ''type'' = None
          \<and> map_of chs ''timestamp'' = None"
    using edit_history_recorded [OF db1_event fresh u] ok
    apply (elim exE conjE)
    subgoal for new chs
      apply (rule exI [of _ chs])
      apply (simp add: no_change_def sample_event_def db1_history)
      done
    done
  obtain res2 d2 where u2: "EventRepository_update J0 db1 ''e'' ?rq2 ''U1'' 5 ''h1'' = (res2, d2)"
    by (cases "EventRepository_update J0 db1 ''e'' ?rq2 ''U1'' 5 ''h1''")
  from edit_history_recorded [OF db1_event fresh u2]
  have 3: "event_edit_history d2 = []" by (auto simp: no_change_def db1_history)
  from 1 3 u u2 db1_event fresh show ?thesis by simp
qed

section \<open>Relations on update\<close>

lemma nested_create_check_None:
  "nested_create_check ex ids = None \<longleftrightarrow> set ids \<subseteq> ex \<and> distinct ids"
  by (auto simp: nested_create_check_def)

lemma nested_create_check_Some:
  "nested_create_check ex ids = Some err \<Longrightarrow> \<not> (set ids \<subseteq> ex \<and> distinct ids)"
  by (auto simp: nested_create_check_def split: if_splits)

lemma prisma_event_update_accepts:
  assumes "find_event d i = Some old"
  shows "(\<exists>p. prisma_event_update d i u now = Inr p) \<longleftrightarrow>
     (\<forall>us. d_assignedUsers u = Some us \<longrightarrow> set us \<subseteq> user_ids d \<and> distinct us)
     \<and> (\<forall>ts. d_tags u = Some ts \<longrightarrow> set ts \<subseteq> tag_ids d \<and> distinct ts)"
  using assms
  by (auto simp: prisma_event_update_def nested_create_check_None
        split: option.splits dest: nested_create_check_Some)

lemma update_succeeds_iff:
  assumes "find_event d i = Some old"
    and "hid \<notin> set (map h_id (event_edit_history d))"
  shows "fst (EventRepository_update J d i req editor now hid) \<noteq> None \<longleftrightarrow>
     (\<forall>us. up_assignedUserIds req = Some us \<longrightarrow> set us \<subseteq> user_ids d \<and> distinct us)
     \<and> (\<forall>ts. up_tagIds req = Some ts \<longrightarrow> set ts \<subseteq> tag_ids d \<and> distinct ts)"
proof -
  have acc: "(\<exists>p. prisma_event_update d i (update_data J req) now = Inr p) \<longleftrightarrow>
     (\<forall>us. up_assignedUserIds req = Some us \<longrightarrow> set us \<subseteq> user_ids d \<and> distinct us)
     \<and> (\<forall>ts. up_tagIds req = Some ts \<longrightarrow> set ts \<subseteq> tag_ids d \<and> distinct ts)"
    using prisma_event_update_accepts [OF assms(1), of "update_data J req" now]
    by (simp add: update_data_def)
  show ?thesis
  proof (cases "prisma_event_update d i (update_data J req) now")
    case (Inl err)
    then have "\<not> (\<exists>p. prisma_event_update d i (update_data J req) now = Inr p)" by simp
    then show ?thesis using update_rejected [OF assms(1) Inl] acc by simp
  next
    case (Inr p)
    obtain new d1 where p: "p = (new, d1)" by (cases p)
    have "\<exists>p. prisma_event_update d i (update_data J req) now = Inr p" using Inr by blast
    then show ?thesis using update_accepted [OF assms(1,2) Inr [unfolded p]] acc by simp
  qed
qed

lemma event_tag_ids_replaced:
  "map et_tagId (filter (\<lambda>a. et_eventId a = j)
      (filter (\<lambda>a. et_eventId a \<noteq> i) rows @ event_tag_rows i ts))
   = (if j = i then ts else map et_tagId (filter (\<lambda>a. et_eventId a = j) rows))"
proof -
  have a: "filter (\<lambda>a. et_eventId a = i) (event_tag_rows i ts) = event_tag_rows i ts"
    by (simp add: event_tag_rows_def filter_map comp_def)
  have b: "j \<noteq> i \<Longrightarrow> filter (\<lambda>a. et_eventId a = j) (event_tag_rows i ts) = []"
    by (simp add: event_tag_rows_def filter_map comp_def)
  have c: "filter (\<lambda>a. et_eventId a = i) (filter (\<lambda>a. et_eventId a \<noteq> i) rows) = []"
    by (simp add: filter_empty_conv)
  have d: "j \<noteq> i \<Longrightarrow> filter (\<lambda>a. et_eventId a = j) (filter (\<lambda>a. et_eventId a \<noteq> i) rows)
      = filter (\<lambda>a. et_eventId a = j) rows"
    by (induction rows) auto
  have e: "map et_tagId (event_tag_rows i ts) = ts"
    by (simp add: event_tag_rows_def comp_def)
  show ?thesis using a b c d e by auto
qed

lemma event_user_ids_replaced:
  "map eua_userId (filter (\<lambda>a. eua_eventId a = j)
      (filter (\<lambda>a. eua_eventId a \<noteq> i) rows @ assignment_rows i us))
   = (if j = i then us else map eua_userId (filter (\<lambda>a. eua_eventId a = j) rows))"
proof -
  have a: "filter (\<lambda>a. eua_eventId a = i) (assignment_rows i us) = assignment_rows i us"
    by (simp add: assignment_rows_def filter_map comp_def)
  have b: "j \<noteq> i \<Longrightarrow> filter (\<lambda>a. eua_eventId a = j) (assignment_rows i us) = []"
    by (simp add: assignment_rows_def filter_map comp_def)
  have c: "filter (\<lambda>a. eua_eventId a = i) (filter (\<lambda>a. eua_eventId a \<noteq> i) rows) = []"
    by (simp add: filter_empty_conv)
  have d: "j \<noteq> i \<Longrightarrow> filter (\<lambda>a. eua_eventId a = j) (filter (\<lambda>a. eua_eventId a \<noteq> i) rows)
      = filter (\<lambda>a. eua_eventId a = j) rows"
    by (induction rows) auto
  have e: "map eua_userId (assignment_rows i us) = us"
    by (simp add: assignment_rows_def comp_def)
  show ?thesis using a b c d e by auto
qed

lemma prisma_event_update_relations:
  assumes "prisma_event_update d i u now = Inr (e', d1)"
  shows "event_tag_ids d1 j
      = (case d_tags u of None \<Rightarrow> event_tag_ids d j
         | Some ts \<Rightarrow> if j = i then ts else event_tag_ids d j)"
    and "event_user_ids d1 j
      = (case d_assignedUsers u of None \<Rightarrow> event_user_ids d j
         | Some us \<Rightarrow> if j = i then us else event_user_ids d j)"
proof -
  from assms have
    t: "event_tags d1 = (case d_tags u of None \<Rightarrow> event_tags d
          | Some ts \<Rightarrow> filter (\<lambda>a. et_eventId a \<noteq> i) (event_tags d) @ event_tag_rows i ts)"
    and a: "event_user_assignments d1 = (case d_assignedUsers u of
            None \<Rightarrow> event_user_assignments d
          | Some us \<Rightarrow> filter (\<lambda>a. eua_eventId a \<noteq> i) (event_user_assignments d)
                        @ assignment_rows i us)"
    by (auto simp: prisma_event_update_def split: option.splits)
  show "event_tag_ids d1 j
      = (case d_tags u of None \<Rightarrow> event_tag_ids d j
         | Some ts \<Rightarrow> if j = i then ts else event_tag_ids d j)"
    unfolding event_tag_ids_def t
    by (cases "d_tags u") (simp_all only: option.case event_tag_ids_replaced)
  show "event_user_ids d1 j
      = (case d_assignedUsers u of None \<Rightarrow> event_user_ids d j
         | Some us \<Rightarrow> if j = i then us else event_user_ids d j)"
    unfolding event_user_ids_def a
    by (cases "d_assignedUsers u") (simp_all only: option.case event_user_ids_replaced)
qed

text \<open>
  C2, as amended. An update request on an existing event is accepted exactly when each
  supplied id list names existing rows only and repeats no id. When it is accepted, a
  supplied \<open>tagIds\<close> is the event's tag list afterwards (so \<open>[]\<close> leaves none), and the
  same for \<open>assignedUserIds\<close>. An absent field leaves its relation as it was, accepted
  or not; a rejected request returns \<open>null\<close> and leaves the store as it was; the
  relations of other events are never touched.
\<close>

theorem relations_replaced_or_kept:
  assumes "find_event d i = Some old"
    and "hid \<notin> set (map h_id (event_edit_history d))"
    and "EventRepository_update J d i req editor now hid = (res, d')"
  shows "(res \<noteq> None \<longleftrightarrow>
           (\<forall>us. up_assignedUserIds req = Some us \<longrightarrow> set us \<subseteq> user_ids d \<and> distinct us)
         \<and> (\<forall>ts. up_tagIds req = Some ts \<longrightarrow> set ts \<subseteq> tag_ids d \<and> distinct ts))
     \<and> (res \<noteq> None \<longrightarrow>
           (\<forall>ts. up_tagIds req = Some ts \<longrightarrow> event_tag_ids d' i = ts)
         \<and> (\<forall>us. up_assignedUserIds req = Some us \<longrightarrow> event_user_ids d' i = us))
     \<and> (res \<noteq> None \<and> up_tagIds req = Some [] \<longrightarrow> event_tag_ids d' i = [])
     \<and> (up_tagIds req = None \<longrightarrow> event_tag_ids d' i = event_tag_ids d i)
     \<and> (up_assignedUserIds req = None \<longrightarrow> event_user_ids d' i = event_user_ids d i)
     \<and> (res = None \<longrightarrow> d' = d)
     \<and> (\<forall>j. j \<noteq> i \<longrightarrow> event_tag_ids d' j = event_tag_ids d j
                     \<and> event_user_ids d' j = event_user_ids d j)"
proof -
  have iff: "res \<noteq> None \<longleftrightarrow>
           (\<forall>us. up_assignedUserIds req = Some us \<longrightarrow> set us \<subseteq> user_ids d \<and> distinct us)
         \<and> (\<forall>ts. up_tagIds req = Some ts \<longrightarrow> set ts \<subseteq> tag_ids d \<and> distinct ts)"
    using update_succeeds_iff [OF assms(1,2), of J req editor now] assms(3) by simp
  show ?thesis
  proof (cases "prisma_event_update d i (update_data J req) now")
    case (Inl err)
    from update_rejected [OF assms(1) Inl] assms(3)
    have r: "res = None" "d' = d" by simp_all
    with iff show ?thesis by auto
  next
    case (Inr p)
    obtain new d1 where p: "p = (new, d1)" by (cases p)
    note acc = update_accepted [OF assms(1,2) Inr [unfolded p], of editor]
    note rel = prisma_event_update_relations [OF Inr [unfolded p]]
    have res: "res \<noteq> None" using acc assms(3) by simp
    have t: "event_tags d' = event_tags d1"
      and a: "event_user_assignments d' = event_user_assignments d1"
      using acc assms(3) by (auto split: if_splits)
    have tg: "\<And>j. event_tag_ids d' j = event_tag_ids d1 j"
      and us: "\<And>j. event_user_ids d' j = event_user_ids d1 j"
      by (simp_all add: event_tag_ids_def event_user_ids_def t a)
    have T: "\<And>j. event_tag_ids d' j = (case up_tagIds req of None \<Rightarrow> event_tag_ids d j
         | Some ts \<Rightarrow> if j = i then ts else event_tag_ids d j)"
      using rel(1) tg by (simp add: update_data_def)
    have U: "\<And>j. event_user_ids d' j = (case up_assignedUserIds req of
           None \<Rightarrow> event_user_ids d j
         | Some us \<Rightarrow> if j = i then us else event_user_ids d j)"
      using rel(2) us by (simp add: update_data_def)
    have c1: "(\<forall>ts. up_tagIds req = Some ts \<longrightarrow> event_tag_ids d' i = ts)
         \<and> (\<forall>us. up_assignedUserIds req = Some us \<longrightarrow> event_user_ids d' i = us)"
      using T [of i] U [of i] by auto
    have c2: "up_tagIds req = None \<longrightarrow> event_tag_ids d' i = event_tag_ids d i"
      using T [of i] by auto
    have c3: "up_assignedUserIds req = None \<longrightarrow> event_user_ids d' i = event_user_ids d i"
      using U [of i] by auto
    have c4: "\<forall>j. j \<noteq> i \<longrightarrow> event_tag_ids d' j = event_tag_ids d j
                     \<and> event_user_ids d' j = event_user_ids d j"
      using T U by (auto split: option.splits)
    from iff res c1 c2 c3 c4 show ?thesis by blast
  qed
qed

theorem relations_replaced_or_kept_witness:
  "find_event db1 ''e'' = Some ((sample_event 1)\<lparr> e_metadata := Some ''{k}'' \<rparr>)
   \<and> ''h1'' \<notin> set (map h_id (event_edit_history db1))
   \<and> fst (EventRepository_update J0 db1 ''e'' (no_change\<lparr> up_tagIds := Some [''t1''] \<rparr>)
            ''U1'' 5 ''h1'') \<noteq> None
   \<and> event_tag_ids db1 ''e'' = [''t2'']
   \<and> event_tag_ids (snd (EventRepository_update J0 db1 ''e''
         (no_change\<lparr> up_tagIds := Some [''t1''] \<rparr>) ''U1'' 5 ''h1'')) ''e'' = [''t1'']
   \<and> event_user_ids (snd (EventRepository_update J0 db1 ''e''
         (no_change\<lparr> up_tagIds := Some [''t1''] \<rparr>) ''U1'' 5 ''h1'')) ''e''
        = event_user_ids db1 ''e''
   \<and> event_tag_ids (snd (EventRepository_update J0 db1 ''e''
         (no_change\<lparr> up_tagIds := Some [] \<rparr>) ''U1'' 5 ''h1'')) ''e'' = []
   \<and> event_tag_ids (snd (EventRepository_update J0 db1 ''e''
         (no_change\<lparr> up_title := Some ''Standup notes'' \<rparr>) ''U1'' 5 ''h1'')) ''e'' = [''t2'']"
proof -
  let ?rq1 = "no_change\<lparr> up_tagIds := Some [''t1''] \<rparr>"
  let ?rq2 = "no_change\<lparr> up_tagIds := Some [] \<rparr>"
  let ?rq3 = "no_change\<lparr> up_title := Some ''Standup notes'' \<rparr>"
  have fresh: "''h1'' \<notin> set (map h_id (event_edit_history db1))" by (simp add: db1_history)
  have tg: "tag_ids db1 = {''t1'', ''t2''}" by (auto simp: tag_ids_def sample_defs)
  have t0: "event_tag_ids db1 ''e'' = [''t2'']" by (simp add: event_tag_ids_def sample_defs)
  obtain r1 d1 where u1: "EventRepository_update J0 db1 ''e'' ?rq1 ''U1'' 5 ''h1'' = (r1, d1)"
    by (cases "EventRepository_update J0 db1 ''e'' ?rq1 ''U1'' 5 ''h1''")
  obtain r2 d2 where u2: "EventRepository_update J0 db1 ''e'' ?rq2 ''U1'' 5 ''h1'' = (r2, d2)"
    by (cases "EventRepository_update J0 db1 ''e'' ?rq2 ''U1'' 5 ''h1''")
  obtain r3 d3 where u3: "EventRepository_update J0 db1 ''e'' ?rq3 ''U1'' 5 ''h1'' = (r3, d3)"
    by (cases "EventRepository_update J0 db1 ''e'' ?rq3 ''U1'' 5 ''h1''")
  have 1: "r1 \<noteq> None \<and> event_tag_ids d1 ''e'' = [''t1'']
        \<and> event_user_ids d1 ''e'' = event_user_ids db1 ''e''"
    using relations_replaced_or_kept [OF db1_event fresh u1] tg
    by (simp add: no_change_def)
  have 2: "event_tag_ids d2 ''e'' = []"
    using relations_replaced_or_kept [OF db1_event fresh u2]
    by (simp add: no_change_def)
  have 3: "event_tag_ids d3 ''e'' = [''t2'']"
    using relations_replaced_or_kept [OF db1_event fresh u3] t0
    by (simp add: no_change_def)
  from 1 2 3 u1 u2 u3 db1_event fresh t0 show ?thesis by simp
qed

text \<open>
  C2 as stated fails: a request whose \<open>tagIds\<close> repeats an existing tag id is rejected by
  the composite key of the junction table, update returns \<open>null\<close>, and the event keeps
  the tag it had instead of the supplied one.
\<close>

theorem relations_replaced_counterexample:
  "find_event db1 ''e'' \<noteq> None
   \<and> up_tagIds (no_change\<lparr> up_tagIds := Some [''t1'', ''t1''] \<rparr>) = Some [''t1'', ''t1'']
   \<and> EventRepository_update J0 db1 ''e'' (no_change\<lparr> up_tagIds := Some [''t1'', ''t1''] \<rparr>)
        ''U1'' 5 ''h1'' = (None, db1)
   \<and> event_tag_ids db1 ''e'' = [''t2'']
   \<and> set (event_tag_ids (snd (EventRepository_update J0 db1 ''e''
            (no_change\<lparr> up_tagIds := Some [''t1'', ''t1''] \<rparr>) ''U1'' 5 ''h1'')) ''e'')
       \<noteq> set [''t1'', ''t1'']"
proof -
  have u: "EventRepository_update J0 db1 ''e'' (no_change\<lparr> up_tagIds := Some [''t1'', ''t1''] \<rparr>)
        ''U1'' 5 ''h1'' = (None, db1)"
    by (simp add: EventRepository_update_def EventRepository_findById_def db1_event
        prisma_event_update_def update_data_def nested_create_check_def no_change_def)
  have t0: "event_tag_ids db1 ''e'' = [''t2'']" by (simp add: event_tag_ids_def sample_defs)
  show ?thesis using u t0 db1_event by (simp add: no_change_def)
qed

section \<open>Creator and creation time\<close>

lemma recordEditHistory_events:
  "recordEditHistory d1 i a b ed now hid = Inr d2 \<Longrightarrow> events d2 = events d1"
  by (auto simp: recordEditHistory_def prisma_eventEditHistory_create_def Let_def
        split: if_splits)

lemma update_Some:
  assumes "EventRepository_update J d i req ed now hid = (Some e', d2)"
  shows "\<exists>old new d1. find_event d i = Some old
     \<and> prisma_event_update d i (update_data J req) now = Inr (new, d1)
     \<and> e' = formatEvent J (include_relations d1 new) \<and> events d2 = events d1"
proof (cases "find_event d i")
  case None
  with assms show ?thesis by (simp add: EventRepository_update_def findById_None)
next
  case (Some old)
  show ?thesis
  proof (cases "prisma_event_update d i (update_data J req) now")
    case (Inl err)
    with assms Some show ?thesis by (simp add: update_rejected)
  next
    case (Inr p)
    obtain new d1 where p: "p = (new, d1)" by (cases p)
    from assms Some Inr p
    have "e' = formatEvent J (include_relations d1 new)
        \<and> recordEditHistory d1 i (formatEvent J (include_relations d old))
             (formatEvent J (include_relations d1 new)) ed now hid = Inr d2"
      by (auto simp: EventRepository_update_def findById_Some Let_def split: sum.splits)
    with Some Inr p show ?thesis using recordEditHistory_events by blast
  qed
qed

lemma update_events:
  "events (snd (EventRepository_update J d i req ed now hid)) = events d
   \<or> events (snd (EventRepository_update J d i req ed now hid))
       = map (\<lambda>x. if e_id x = i then apply_update_data (update_data J req) now x else x)
           (events d)"
proof (cases "find_event d i")
  case None
  then show ?thesis by (simp add: EventRepository_update_def findById_None)
next
  case (Some old)
  show ?thesis
  proof (cases "prisma_event_update d i (update_data J req) now")
    case (Inl err)
    with Some show ?thesis by (simp add: update_rejected)
  next
    case (Inr p)
    obtain new d1 where p: "p = (new, d1)" by (cases p)
    from prisma_event_update_Inr [OF Inr [unfolded p]]
    have ev: "events d1
        = map (\<lambda>x. if e_id x = i then apply_update_data (update_data J req) now x else x)
            (events d)"
      by blast
    have "events (snd (EventRepository_update J d i req ed now hid)) = events d1"
      using Some Inr p
      by (auto simp: EventRepository_update_def findById_Some Let_def
            split: sum.splits dest: recordEditHistory_events)
    with ev show ?thesis by simp
  qed
qed

lemma update_keeps_creator:
  assumes "find_event d j = Some r"
  shows "\<exists>r'. find_event (snd (EventRepository_update J d i req ed now hid)) j = Some r'
     \<and> e_creatorId r' = e_creatorId r \<and> e_createdAt r' = e_createdAt r"
proof -
  let ?g = "\<lambda>x. if e_id x = i then apply_update_data (update_data J req) now x else x"
  have g: "\<And>x. e_id (?g x) = e_id x" by simp
  have "find (\<lambda>e. e_id e = j) (map ?g (events d)) = Some (?g r)"
    using find_map_id [OF g, of j "events d"] assms by (simp add: find_event_def)
  moreover have "e_creatorId (?g r) = e_creatorId r \<and> e_createdAt (?g r) = e_createdAt r"
    by simp
  ultimately show ?thesis
    using update_events [of J d i req ed now hid] assms
    by (auto simp: find_event_def)
qed

lemma run_updates_keep_creator:
  "find_event d j = Some r \<Longrightarrow>
     \<exists>r'. find_event (run_updates J d calls) j = Some r'
        \<and> e_creatorId r' = e_creatorId r \<and> e_createdAt r' = e_createdAt r"
proof (induction calls arbitrary: d r)
  case Nil
  then show ?case by simp
next
  case (Cons c calls)
  obtain i req ed now hid where c: "c = (i, req, ed, now, hid)" by (cases c)
  from update_keeps_creator [OF Cons.prems, of J i req ed now hid]
  obtain r1 where r1: "find_event (snd (EventRepository_update J d i req ed now hid)) j = Some r1"
      "e_creatorId r1 = e_creatorId r" "e_createdAt r1 = e_createdAt r"
    by blast
  from Cons.IH [OF r1(1)] r1(2,3) c show ?case by auto
qed

lemma find_append_new:
  "i \<notin> set (map e_id xs) \<Longrightarrow> e_id row = i \<Longrightarrow> find (\<lambda>e. e_id e = i) (xs @ [row]) = Some row"
  by (induction xs) auto

lemma create_Inr:
  assumes "EventRepository_create J d0 creq c td t0 nid = (Inr e, d1)"
  shows "\<exists>row. find_event d1 nid = Some row \<and> e_creatorId row = c \<and> e_createdAt row = t0
     \<and> e_updatedAt row = t0 \<and> e = formatEvent J (include_relations d1 row)"
proof -
  let ?row = "\<lparr> e_id = nid, e_title = c_title creq, e_content = c_content creq,
                e_type = c_type creq,
                e_timestamp = (case c_timestamp creq of None \<Rightarrow> td | Some t \<Rightarrow> t),
                e_metadata = map_option (JSON_stringify J) (c_metadata creq),
                e_createdAt = t0, e_updatedAt = t0, e_creatorId = c \<rparr>"
  from assms have e: "e = formatEvent J (include_relations d1 ?row)"
    and fresh: "nid \<notin> event_ids d0" and ev: "events d1 = events d0 @ [?row]"
    by (auto simp: EventRepository_create_def prisma_event_create_def Let_def
          split: sum.splits option.splits if_splits)
  have "find_event d1 nid = Some ?row"
    unfolding find_event_def ev using fresh
    by (intro find_append_new) (simp_all add: event_ids_def)
  with e show ?thesis by (intro exI [of _ ?row]) simp
qed

lemma writes_column_update_data:
  "writes_column (update_data J req) \<longleftrightarrow>
     up_title req \<noteq> None \<or> up_content req \<noteq> None \<or> up_type req \<noteq> None
     \<or> up_timestamp req \<noteq> None \<or> up_metadata req \<noteq> None"
  by (auto simp: writes_column_def update_data_def split: option.splits)

text \<open>
  C3, as amended. For an event that create produced, after any sequence of update calls
  the stored \<open>creatorId\<close> and \<open>createdAt\<close> are those of the creation, and so are they in
  every event a further update returns. An accepted update that supplies title,
  content, type, timestamp or metadata stamps \<open>updatedAt\<close> with its clock value; an
  accepted update that supplies none of them leaves \<open>updatedAt\<close> as it was.
\<close>

theorem creator_and_creation_time_fixed:
  assumes "EventRepository_create J d0 creq creator_id today t0 nid = (Inr e, d1)"
  shows "creatorId e = creator_id \<and> createdAt e = t0
     \<and> (\<forall>calls. \<exists>row. find_event (run_updates J d1 calls) nid = Some row
           \<and> e_creatorId row = creator_id \<and> e_createdAt row = t0
           \<and> (\<forall>req ed now hid e' d2.
                 EventRepository_update J (run_updates J d1 calls) nid req ed now hid = (Some e', d2)
                 \<longrightarrow> creatorId e' = creator_id \<and> createdAt e' = t0
                   \<and> updatedAt e'
                       = (if up_title req \<noteq> None \<or> up_content req \<noteq> None
                             \<or> up_type req \<noteq> None \<or> up_timestamp req \<noteq> None
                             \<or> up_metadata req \<noteq> None
                          then now else e_updatedAt row)
                   \<and> (\<exists>row'. find_event d2 nid = Some row'
                         \<and> e_creatorId row' = creator_id \<and> e_createdAt row' = t0
                         \<and> e_updatedAt row' = updatedAt e')))"
proof -
  from create_Inr [OF assms] obtain row0 where row0: "find_event d1 nid = Some row0"
     "e_creatorId row0 = creator_id" "e_createdAt row0 = t0"
     "e = formatEvent J (include_relations d1 row0)"
    by blast
  have a: "creatorId e = creator_id \<and> createdAt e = t0" using row0 by simp
  have b: "\<exists>row. find_event (run_updates J d1 calls) nid = Some row
           \<and> e_creatorId row = creator_id \<and> e_createdAt row = t0
           \<and> (\<forall>req ed now hid e' d2.
                 EventRepository_update J (run_updates J d1 calls) nid req ed now hid = (Some e', d2)
                 \<longrightarrow> creatorId e' = creator_id \<and> createdAt e' = t0
                   \<and> updatedAt e'
                       = (if up_title req \<noteq> None \<or> up_content req \<noteq> None
                             \<or> up_type req \<noteq> None \<or> up_timestamp req \<noteq> None
                             \<or> up_metadata req \<noteq> None
                          then now else e_updatedAt row)
                   \<and> (\<exists>row'. find_event d2 nid = Some row'
                         \<and> e_creatorId row' = creator_id \<and> e_createdAt row' = t0
                         \<and> e_updatedAt row' = updatedAt e'))"
    for calls
  proof -
    let ?d = "run_updates J d1 calls"
    from run_updates_keep_creator [OF row0(1), of J calls] row0(2,3)
    obtain row where row: "find_event ?d nid = Some row"
       "e_creatorId row = creator_id" "e_createdAt row = t0"
      by auto
    have "creatorId e' = creator_id \<and> createdAt e' = t0
                   \<and> updatedAt e'
                       = (if up_title req \<noteq> None \<or> up_content req \<noteq> None
                             \<or> up_type req \<noteq> None \<or> up_timestamp req \<noteq> None
                             \<or> up_metadata req \<noteq> None
                          then now else e_updatedAt row)
                   \<and> (\<exists>row'. find_event d2 nid = Some row'
                         \<and> e_creatorId row' = creator_id \<and> e_createdAt row' = t0
                         \<and> e_updatedAt row' = updatedAt e')"
      if u: "EventRepository_update J ?d nid req ed now hid = (Some e', d2)"
      for req ed now hid e' d2
    proof -
      from update_Some [OF u] row(1) obtain new dm where
        p: "prisma_event_update ?d nid (update_data J req) now = Inr (new, dm)"
        and e': "e' = formatEvent J (include_relations dm new)"
        and ev: "events d2 = events dm"
        by auto
      from prisma_event_update_Inr [OF p] row(1)
      have new: "new = apply_update_data (update_data J req) now row"
        and f: "find_event dm nid = Some new"
        by auto
      have f2: "find_event d2 nid = Some new" using f ev by (simp add: find_event_def)
      have st: "e_updatedAt new
          = (if up_title req \<noteq> None \<or> up_content req \<noteq> None
                \<or> up_type req \<noteq> None \<or> up_timestamp req \<noteq> None
                \<or> up_metadata req \<noteq> None
             then now else e_updatedAt row)"
        unfolding new by (simp only: apply_update_data_fields writes_column_update_data)
      have c1: "creatorId e' = creator_id" "createdAt e' = t0"
        using e' new row(2,3) by simp_all
      have c2: "updatedAt e' = e_updatedAt new" using e' by simp
      have c3: "e_creatorId new = creator_id" "e_createdAt new = t0"
        using new row(2,3) by simp_all
      show ?thesis
        using c1 c2 c3 st f2 by (intro conjI exI [of _ new]) simp_all
    qed
    with row show ?thesis by blast
  qed
  from a b show ?thesis by blast
qed

lemma sample_created_ok: "\<not> isl (fst sample_created)"
  by code_simp

lemma sample_updated_at:
  "e_updatedAt (the (find_event (run_updates J0 (snd sample_created) sample_calls) ''n1'')) = 20"
  by code_simp

lemma sample_third_update:
  "fst (EventRepository_update J0 (run_updates J0 (snd sample_created) sample_calls) ''n1''
          (no_change\<lparr> up_content := Some ''Weekly sync'' \<rparr>) ''U1'' 40 ''h3'') \<noteq> None"
  by code_simp

theorem creator_and_creation_time_fixed_witness:
  "\<not> isl (fst sample_created)
   \<and> creatorId (projr (fst sample_created)) = ''U1''
   \<and> createdAt (projr (fst sample_created)) = 10
   \<and> e_creatorId (the (find_event (run_updates J0 (snd sample_created) sample_calls) ''n1''))
       = ''U1''
   \<and> e_createdAt (the (find_event (run_updates J0 (snd sample_created) sample_calls) ''n1''))
       = 10
   \<and> e_updatedAt (the (find_event (run_updates J0 (snd sample_created) sample_calls) ''n1''))
       = 20
   \<and> creatorId (the (fst (EventRepository_update J0
          (run_updates J0 (snd sample_created) sample_calls) ''n1''
          (no_change\<lparr> up_content := Some ''Weekly sync'' \<rparr>) ''U1'' 40 ''h3''))) = ''U1''
   \<and> createdAt (the (fst (EventRepository_update J0
          (run_updates J0 (snd sample_created) sample_calls) ''n1''
          (no_change\<lparr> up_content := Some ''Weekly sync'' \<rparr>) ''U1'' 40 ''h3''))) = 10
   \<and> updatedAt (the (fst (EventRepository_update J0
          (run_updates J0 (snd sample_created) sample_calls) ''n1''
          (no_change\<lparr> up_content := Some ''Weekly sync'' \<rparr>) ''U1'' 40 ''h3''))) = 40"
proof -
  let ?d = "run_updates J0 (snd sample_created) sample_calls"
  let ?rq = "no_change\<lparr> up_content := Some ''Weekly sync'' \<rparr>"
  let ?u = "EventRepository_update J0 ?d ''n1'' ?rq ''U1'' 40 ''h3''"
  obtain e d1 where
    c: "EventRepository_create J0 db1 sample_request ''U1'' 9 10 ''n1'' = (Inr e, d1)"
    using sample_created_ok unfolding sample_created_def
    by (cases "EventRepository_create J0 db1 sample_request ''U1'' 9 10 ''n1''";
        cases "fst (EventRepository_create J0 db1 sample_request ''U1'' 9 10 ''n1'')") auto
  then have sc: "sample_created = (Inr e, d1)" by (simp add: sample_created_def)
  obtain e' d2 where u: "EventRepository_update J0 (run_updates J0 d1 sample_calls) ''n1''
          ?rq ''U1'' 40 ''h3'' = (Some e', d2)"
    using sample_third_update unfolding sc by (cases ?u) (auto simp: sc)
  note t = creator_and_creation_time_fixed [OF c]
  have a: "creatorId e = ''U1''" "createdAt e = 10"
    using t by blast+
  from t [THEN conjunct2, THEN conjunct2, THEN spec, of sample_calls]
  obtain row where row: "find_event (run_updates J0 d1 sample_calls) ''n1'' = Some row"
      "e_creatorId row = ''U1''" "e_createdAt row = 10"
    and nxt: "\<forall>req ed now hid e' d2.
                 EventRepository_update J0 (run_updates J0 d1 sample_calls) ''n1'' req ed now hid
                   = (Some e', d2)
                 \<longrightarrow> creatorId e' = ''U1'' \<and> createdAt e' = 10
                   \<and> updatedAt e'
                       = (if up_title req \<noteq> None \<or> up_content req \<noteq> None
                             \<or> up_type req \<noteq> None \<or> up_timestamp req \<noteq> None
                             \<or> up_metadata req \<noteq> None
                          then now else e_updatedAt row)
                   \<and> (\<exists>row'. find_event d2 ''n1'' = Some row'
                         \<and> e_creatorId row' = ''U1'' \<and> e_createdAt row' = 10
                         \<and> e_updatedAt row' = updatedAt e')"
    by (elim exE conjE)
  from nxt [rule_format, OF u]
  have e': "creatorId e' = ''U1''" "createdAt e' = 10" "updatedAt e' = 40"
    by (simp_all add: no_change_def)
  show ?thesis
    using sample_created_ok sample_updated_at a row e' u by (simp add: sc)
qed

text \<open>
  C3 as stated fails: an accepted update that only replaces the tags changes the event's
  tag set, at a later clock value, and leaves \<open>updatedAt\<close> at the value of the creation.
\<close>

theorem updatedAt_counterexample:
  "event_tag_ids (snd sample_created) ''n1'' = [''t1'']
   \<and> e_updatedAt (the (find_event (snd sample_created) ''n1'')) = 10
   \<and> fst (EventRepository_update J0 (snd sample_created) ''n1''
            (no_change\<lparr> up_tagIds := Some [] \<rparr>) ''U1'' 30 ''h1'') \<noteq> None
   \<and> event_tag_ids (snd (EventRepository_update J0 (snd sample_created) ''n1''
            (no_change\<lparr> up_tagIds := Some [] \<rparr>) ''U1'' 30 ''h1'')) ''n1'' = []
   \<and> updatedAt (the (fst (EventRepository_update J0 (snd sample_created) ''n1''
            (no_change\<lparr> up_tagIds := Some [] \<rparr>) ''U1'' 30 ''h1''))) = 10
   \<and> e_updatedAt (the (find_event (snd (EventRepository_update J0 (snd sample_created) ''n1''
            (no_change\<lparr> up_tagIds := Some [] \<rparr>) ''U1'' 30 ''h1'')) ''n1'')) = 10"
  by code_simp

section \<open>Returned events\<close>

lemma formatEvent_arrays:
  "assignedUsers (formatEvent J raw) \<noteq> None \<and> tags (formatEvent J raw) \<noteq> None
   \<and> attachments (formatEvent J raw) \<noteq> None"
  by (simp add: formatEvent_def)

lemma formatEvent_metadata:
  "metadata (formatEvent J raw)
     = (case e_metadata raw of None \<Rightarrow> None
        | Some s \<Rightarrow> if s = [] then None else Some (JSON_parse J s))"
  by (simp add: formatEvent_def)

lemma formatEvent_formatted:
  assumes "e_metadata row \<noteq> Some []"
  shows "formatted_from J row (formatEvent J (include_relations d row))"
  using assms formatEvent_arrays [of J "include_relations d row"]
  by (auto simp: formatted_from_def formatEvent_metadata split: option.splits)

lemma prisma_take_subset: "prisma_take t xs = Inr ys \<Longrightarrow> set ys \<subseteq> set xs"
proof -
  assume "prisma_take t xs = Inr ys"
  then have "ys = take (low32 t) xs \<or> ys = rev (take (low32 (- t)) (rev xs))"
    by (auto simp: prisma_take_def split: if_splits)
  then show ?thesis
    using set_take_subset [of "low32 t" xs] set_take_subset [of "low32 (- t)" "rev xs"]
    by auto
qed

lemma skip_take_subset: "skip_take s t xs = Inr ys \<Longrightarrow> set ys \<subseteq> set xs"
proof -
  assume "skip_take s t xs = Inr ys"
  then have "prisma_take t (drop (nat s) xs) = Inr ys
      \<or> prisma_take t (rev (drop (nat s) (rev xs))) = Inr ys"
    by (auto simp: skip_take_def split: if_splits)
  then have "set ys \<subseteq> set (drop (nat s) xs) \<or> set ys \<subseteq> set (rev (drop (nat s) (rev xs)))"
    using prisma_take_subset by blast
  then show ?thesis
    using set_drop_subset [of "nat s" xs] set_drop_subset [of "nat s" "rev xs"] by auto
qed

lemma create_Inr_row:
  assumes "EventRepository_create J d0 creq c td t0 nid = (Inr e, d1)"
  shows "\<exists>row \<in> set (events d1). e = formatEvent J (include_relations d1 row)
     \<and> e_metadata row = map_option (JSON_stringify J) (c_metadata creq)"
  using assms
  by (auto simp: EventRepository_create_def prisma_event_create_def Let_def
        split: sum.splits option.splits if_splits)

lemma paginate_formatted:
  assumes "paginate J d wh pg lm = Inr r"
    and "\<forall>row \<in> set (events d). e_metadata row \<noteq> Some []"
  shows "\<forall>e \<in> set (data r). \<exists>row \<in> set (events d). formatted_from J row e"
proof -
  from assms(1) obtain evs where
    st: "skip_take ((pg - 1) * lm) lm (order_by_timestamp_desc (filter wh (events d))) = Inr evs"
    and dt: "data r = map (\<lambda>e. formatEvent J (include_relations d e)) evs"
    by (auto simp: paginate_def Let_def split: sum.splits)
  have "set evs \<subseteq> set (order_by_timestamp_desc (filter wh (events d)))"
    using skip_take_subset [OF st] .
  also have "\<dots> \<subseteq> set (events d)" by (auto simp: order_by_timestamp_desc_def)
  finally have sub: "set evs \<subseteq> set (events d)" .
  show ?thesis
  proof
    fix e assume "e \<in> set (data r)"
    then obtain row where row: "row \<in> set evs" "e = formatEvent J (include_relations d row)"
      using dt by auto
    then have "row \<in> set (events d)" using sub by blast
    moreover from this assms(2) have "formatted_from J row e"
      unfolding row(2) by (intro formatEvent_formatted) blast
    ultimately show "\<exists>row \<in> set (events d). formatted_from J row e" by blast
  qed
qed

text \<open>
  C10. Every event that create, update, findById, findAll, findByCreator or
  findByDateRange returns has \<open>assignedUsers\<close>, \<open>tags\<close> and \<open>attachments\<close> present, and
  its \<open>metadata\<close> is the parsed form of the JSON string stored in its row, absent when
  the row stores none. The stored strings are images of \<open>JSON.stringify\<close>, which never
  returns the empty string; formatEvent reads an empty string as no metadata.
\<close>

theorem returned_events_formatted:
  assumes "\<forall>m. JSON_stringify J m \<noteq> []"
    and "\<forall>row \<in> set (events d). e_metadata row \<noteq> Some []"
  shows "(\<forall>raw. assignedUsers (formatEvent J raw) \<noteq> None \<and> tags (formatEvent J raw) \<noteq> None
            \<and> attachments (formatEvent J raw) \<noteq> None)
     \<and> (\<forall>e. EventRepository_findById J d i = Some e \<longrightarrow>
           (\<exists>row \<in> set (events d). formatted_from J row e))
     \<and> (\<forall>r. EventRepository_findAll J d pg lm = Inr r \<longrightarrow>
           (\<forall>e \<in> set (data r). \<exists>row \<in> set (events d). formatted_from J row e))
     \<and> (\<forall>r. EventRepository_findByCreator J d cid pg lm = Inr r \<longrightarrow>
           (\<forall>e \<in> set (data r). \<exists>row \<in> set (events d). formatted_from J row e))
     \<and> (\<forall>r. EventRepository_findByDateRange J d startDate endDate pg lm = Inr r \<longrightarrow>
           (\<forall>e \<in> set (data r). \<exists>row \<in> set (events d). formatted_from J row e))
     \<and> (\<forall>e d'. EventRepository_create J d creq creator_id today now nid = (Inr e, d') \<longrightarrow>
           (\<exists>row \<in> set (events d'). formatted_from J row e))
     \<and> (\<forall>e d'. EventRepository_update J d i req editor now hid = (Some e, d') \<longrightarrow>
           (\<exists>row \<in> set (events d'). formatted_from J row e))"
proof -
  have byid: "\<exists>row \<in> set (events d). formatted_from J row e"
    if "EventRepository_findById J d i = Some e" for e
  proof -
    from that obtain row where row: "find_event d i = Some row"
      "e = formatEvent J (include_relations d row)"
      by (auto simp: EventRepository_findById_def split: option.splits)
    from find_event_SomeD [OF row(1)] have "row \<in> set (events d)" by simp
    with assms(2) row(2) show ?thesis using formatEvent_formatted by blast
  qed
  have cr: "\<exists>row \<in> set (events d'). formatted_from J row e"
    if c: "EventRepository_create J d creq creator_id today now nid = (Inr e, d')" for e d'
  proof -
    from create_Inr_row [OF c] obtain row where row: "row \<in> set (events d')"
      "e = formatEvent J (include_relations d' row)"
      "e_metadata row = map_option (JSON_stringify J) (c_metadata creq)"
      by blast
    have "e_metadata row \<noteq> Some []" using row(3) assms(1) by (cases "c_metadata creq") auto
    then have "formatted_from J row e" unfolding row(2) by (rule formatEvent_formatted)
    with row(1) show ?thesis by blast
  qed
  have up: "\<exists>row \<in> set (events d'). formatted_from J row e"
    if u: "EventRepository_update J d i req editor now hid = (Some e, d')" for e d'
  proof -
    from update_Some [OF u] obtain old new d1 where
      old: "find_event d i = Some old"
      and p: "prisma_event_update d i (update_data J req) now = Inr (new, d1)"
      and e: "e = formatEvent J (include_relations d1 new)"
      and ev: "events d' = events d1"
      by blast
    from prisma_event_update_Inr [OF p] old
    have new: "new = apply_update_data (update_data J req) now old"
      and f: "find_event d1 i = Some new"
      by auto
    have "old \<in> set (events d)" using find_event_SomeD [OF old] by simp
    then have "e_metadata old \<noteq> Some []" using assms(2) by blast
    then have m: "e_metadata new \<noteq> Some []"
      using new assms(1) by (auto simp: update_data_def split: option.splits)
    have "new \<in> set (events d')" using find_event_SomeD [OF f] ev by simp
    moreover have "formatted_from J new e"
      unfolding e by (rule formatEvent_formatted [OF m])
    ultimately show ?thesis by blast
  qed
  show ?thesis
    using formatEvent_arrays byid cr up
      paginate_formatted [OF _ assms(2)]
    unfolding EventRepository_findAll_def EventRepository_findByCreator_def
      EventRepository_findByDateRange_def
    by blast
qed

lemma db1_findById: "EventRepository_findById J0 db1 ''e'' \<noteq> None"
  by (simp add: EventRepository_findById_def db1_event)

theorem returned_events_formatted_witness:
  "EventRepository_findById J0 db1 ''e'' \<noteq> None
   \<and> metadata (the (EventRepository_findById J0 db1 ''e'')) = Some ''k''
   \<and> assignedUsers (the (EventRepository_findById J0 db1 ''e'')) \<noteq> None
   \<and> tags (the (EventRepository_findById J0 db1 ''e'')) \<noteq> None
   \<and> attachments (the (EventRepository_findById J0 db1 ''e'')) \<noteq> None"
proof -
  have h1: "\<forall>m. JSON_stringify J0 m \<noteq> []" by (simp add: J0_def)
  have ev: "events db1 = [(sample_event 1)\<lparr> e_metadata := Some ''{k}'' \<rparr>]"
    by (simp add: db1_def empty_db_def)
  have h2: "\<forall>row \<in> set (events db1). e_metadata row \<noteq> Some []" by (simp add: ev)
  obtain e where e: "EventRepository_findById J0 db1 ''e'' = Some e"
    using db1_findById by blast
  from returned_events_formatted [OF h1 h2, of "''e''", THEN conjunct2, THEN conjunct1] e
  have "\<exists>row \<in> set (events db1). formatted_from J0 row e" by blast
  then have "formatted_from J0 ((sample_event 1)\<lparr> e_metadata := Some ''{k}'' \<rparr>) e"
    by (simp add: ev)
  then show ?thesis using e by (simp add: formatted_from_def J0_def)
qed

section \<open>Creating an event\<close>






lemma select_public_id [simp]: "u_id (select_public u) = u_id u"
  by (simp add: select_public_def User.defs)




















section \<open>Popular tags\<close>







section \<open>Batch creation of tags\<close>

lemma getRandomColor_palette:
  assumes "0 \<le> r" and "r < 1"
  shows "\<exists>c \<in> set colors. getRandomColor r = Some c"
proof -
  define i where "i = \<lfloor>r * 10\<rfloor>"
  have len: "length colors = 10" by (simp add: colors_def)
  have lo: "0 \<le> i" unfolding i_def using assms(1) by simp
  have "r * 10 < 10" using assms(2) by simp
  then have hi: "i < 10" unfolding i_def by (simp add: floor_less_iff)
  from lo hi have "nat i < length colors" by (simp add: len)
  then have "colors ! nat i \<in> set colors" by (rule nth_mem)
  moreover have "getRandomColor r = Some (colors ! nat i)"
    using lo hi by (simp add: getRandomColor_def len i_def [symmetric])
  ultimately show ?thesis by blast
qed

text \<open>Creations of distinct new names under new cuids are all accepted.\<close>

lemma create_all_accepted:
  assumes "distinct nms"
    and "set nms \<inter> set (map name (tag_rows d)) = {}"
    and "\<forall>j < length nms. cuid (k + j) \<notin> tag_ids d"
    and "inj cuid"
    and "\<forall>n. 0 \<le> rnd n \<and> rnd n < 1"
  shows "\<exists>tgs. create_all d nms rnd cuid now k = (Inr tgs, d\<lparr> tag_rows := tag_rows d @ tgs \<rparr>)
     \<and> map name tgs = nms
     \<and> (\<forall>t \<in> set tgs. \<exists>c \<in> set colors. color t = Some c)"
  using assms(1,2,3)
proof (induction nms arbitrary: d k)
  case Nil
  then show ?case by simp
next
  case (Cons nm nms)
  let ?tag = "\<lparr> t_id = cuid k, name = nm, color = getRandomColor (rnd k), t_createdAt = now \<rparr>"
  let ?d1 = "d\<lparr> tag_rows := tag_rows d @ [?tag] \<rparr>"
  from Cons.prems(3) have fresh0: "cuid k \<notin> tag_ids d" by force
  from Cons.prems(2) have nm: "nm \<notin> set (map name (tag_rows d))" by auto
  have c: "TagRepository_create d nm (getRandomColor (rnd k)) now (cuid k) = (Inr ?tag, ?d1)"
    using fresh0 nm by (simp add: TagRepository_create_def Let_def)
  have p1: "distinct nms" using Cons.prems(1) by simp
  have p2: "set nms \<inter> set (map name (tag_rows ?d1)) = {}"
    using Cons.prems(1,2) by auto
  have p3: "\<forall>j < length nms. cuid (Suc k + j) \<notin> tag_ids ?d1"
  proof (intro allI impI)
    fix j assume j: "j < length nms"
    then have "cuid (k + Suc j) \<notin> tag_ids d" using Cons.prems(3) by force
    moreover have "cuid (k + Suc j) \<noteq> cuid k" using assms(4) by (simp add: inj_eq)
    ultimately show "cuid (Suc k + j) \<notin> tag_ids ?d1" by (simp add: tag_ids_def)
  qed
  from Cons.IH [OF p1 p2 p3] obtain tgs where
    tgs: "create_all ?d1 nms rnd cuid now (Suc k) = (Inr tgs, ?d1\<lparr> tag_rows := tag_rows ?d1 @ tgs \<rparr>)"
      "map name tgs = nms" "\<forall>t \<in> set tgs. \<exists>c \<in> set colors. color t = Some c"
    by blast
  from getRandomColor_palette [of "rnd k"] assms(5)
  have col: "\<exists>c \<in> set colors. color ?tag = Some c" by simp
  have r1: "create_all d (nm # nms) rnd cuid now k
      = (Inr (?tag # tgs), d\<lparr> tag_rows := tag_rows d @ (?tag # tgs) \<rparr>)"
    using c tgs(1) by simp
  have r2: "map name (?tag # tgs) = nm # nms" using tgs(2) by simp
  have r3: "\<forall>t \<in> set (?tag # tgs). \<exists>c \<in> set colors. color t = Some c"
    using col tgs(3) by simp
  show ?case
    by (rule exI [of _ "?tag # tgs"]) (rule conjI, rule r1, rule conjI, rule r2, rule r3)
qed

text \<open>
  What does hold: when the names that the store lacks are pairwise distinct,
  a second call returns the tags of the first and creates nothing.
\<close>

lemma createMultiple_twice:
  assumes "distinct (filter (\<lambda>nm. nm \<notin> set (map name (tag_rows d))) names)"
    and "\<forall>j < length names. cuid j \<notin> tag_ids d"
    and "inj cuid"
    and "\<forall>n. 0 \<le> rnd n \<and> rnd n < 1"
  shows "\<exists>tgs d1. createMultiple d names rnd cuid now = (Inr tgs, d1)
     \<and> createMultiple d1 names rnd2 cuid2 now2 = (Inr tgs, d1)
     \<and> set (map name tgs) = set names
     \<and> (\<forall>t \<in> set (tag_rows d). name t \<in> set names \<longrightarrow> t \<in> set tgs)
     \<and> (\<forall>t \<in> set tgs. t \<in> set (tag_rows d) \<or> (\<exists>c \<in> set colors. color t = Some c))"
proof -
  let ?ex = "findByNames d names"
  let ?new = "filter (\<lambda>nm. nm \<notin> set (map name ?ex)) names"
  have new_eq: "?new = filter (\<lambda>nm. nm \<notin> set (map name (tag_rows d))) names"
    by (rule filter_cong) (auto simp: findByNames_def)
  have exn: "set (map name ?ex) = set names \<inter> set (map name (tag_rows d))"
    by (auto simp: findByNames_def)
  have a1: "distinct ?new" using assms(1) new_eq by simp
  have a2: "set ?new \<inter> set (map name (tag_rows d)) = {}" unfolding new_eq by auto
  have a3: "\<forall>j < length ?new. cuid (0 + j) \<notin> tag_ids d"
  proof (intro allI impI)
    fix j assume "j < length ?new"
    moreover have "length ?new \<le> length names" by (rule length_filter_le)
    ultimately have "j < length names" by (rule less_le_trans)
    then show "cuid (0 + j) \<notin> tag_ids d" using assms(2) by simp
  qed
  from create_all_accepted [OF a1 a2 a3 assms(3,4), of now] obtain tgs where
    tgs: "create_all d ?new rnd cuid now 0 = (Inr tgs, d\<lparr> tag_rows := tag_rows d @ tgs \<rparr>)"
      "map name tgs = ?new" "\<forall>t \<in> set tgs. \<exists>c \<in> set colors. color t = Some c"
    by blast
  let ?d1 = "d\<lparr> tag_rows := tag_rows d @ tgs \<rparr>"
  have first: "createMultiple d names rnd cuid now
      = (if ?new = [] then (Inr ?ex, d) else (Inr (?ex @ tgs), ?d1))"
    using tgs(1) by (simp add: createMultiple_def Let_def)
  have tgs_nil: "?new = [] \<Longrightarrow> tgs = []" using tgs(2) by simp
  have names_cover: "set (map name (?ex @ tgs)) = set names"
    using exn tgs(2) by auto
  have ex2: "findByNames ?d1 names = ?ex @ tgs"
  proof -
    have "filter (\<lambda>t. name t \<in> set names) tgs = tgs"
      using tgs(2) by (intro filter_True) (metis (no_types, lifting) filter_is_subset image_eqI
          list.set_map subsetD)
    then show ?thesis by (simp add: findByNames_def)
  qed
  have new2: "filter (\<lambda>nm. nm \<notin> set (map name (findByNames ?d1 names))) names = []"
    unfolding ex2 using names_cover by (simp add: filter_empty_conv)
  have second: "createMultiple ?d1 names rnd2 cuid2 now2 = (Inr (?ex @ tgs), ?d1)"
    using new2 ex2 by (simp add: createMultiple_def Let_def)
  have d1_same: "?new = [] \<Longrightarrow> ?d1 = d" using tgs_nil by simp
  have keep: "\<forall>t \<in> set (tag_rows d). name t \<in> set names \<longrightarrow> t \<in> set (?ex @ tgs)"
    by (auto simp: findByNames_def)
  have pal: "\<forall>t \<in> set (?ex @ tgs). t \<in> set (tag_rows d) \<or> (\<exists>c \<in> set colors. color t = Some c)"
    using tgs(3) by (auto simp: findByNames_def)
  show ?thesis
  proof (cases "?new = []")
    case True
    with first second tgs_nil d1_same names_cover keep pal show ?thesis
      by (intro exI [of _ "?ex @ tgs"] exI [of _ ?d1]) simp
  next
    case False
    with first second names_cover keep pal show ?thesis
      by (intro exI [of _ "?ex @ tgs"] exI [of _ ?d1]) simp
  qed
qed

text \<open>
  C6. createMultiple is to return, for a list of names, the same tags on a second call
  as on the first. On a list that repeats a name the store lacks it does not: both
  occurrences pass the filter, the second creation violates the unique name, and the
  first call is rejected after it has created the tag; the second call then returns
  that tag.
\<close>

theorem createMultiple_repeated_name:
  "fst (createMultiple empty_db [''a'', ''a''] sample_rnd sample_cuid 0)
     = Inl UniqueConstraintFailed
   \<and> tag_rows (snd (createMultiple empty_db [''a'', ''a''] sample_rnd sample_cuid 0))
     = [\<lparr> t_id = ''c'', name = ''a'', color = Some ''#F59E0B'', t_createdAt = 0 \<rparr>]
   \<and> fst (createMultiple
            (snd (createMultiple empty_db [''a'', ''a''] sample_rnd sample_cuid 0))
            [''a'', ''a''] sample_rnd sample_cuid 1)
     = Inr [\<lparr> t_id = ''c'', name = ''a'', color = Some ''#F59E0B'', t_createdAt = 0 \<rparr>]"
  by code_simp

end
